theory Spec2Isabelle
  imports Main "HOL-Library.Word" "HOL-Library.Multiset"
begin

unbundle bit_operations_syntax

section \<open>Data model\<close>

text \<open>
  The package \<open>tmx\<close> decodes the tile layers of a Tiled map. \<open>GlobalID\<close> and \<open>TileID\<close>
  are Go \<open>uint32\<close>; Go strings and byte slices are sequences of bytes, modelled as
  \<open>string\<close> (one \<open>char\<close> per byte). A Go slice is a list; the nil slice is \<open>[]\<close>. A slice
  that is built by \<open>append\<close> from nil is non-nil exactly when it is non-empty, and the
  two cache fields of a layer are only ever assigned such slices, so the test
  \<open>!= nil\<close> on them is the test \<open>\<noteq> []\<close>.
\<close>

type_synonym u32 = "32 word"
type_synonym GlobalID = u32
type_synonym TileID = u32

text \<open>
  Go functions return a value together with an \<open>error\<close>; the model keeps both, as a
  pair whose second component is \<open>None\<close> for a nil error. The error values:
  the two exported sentinels the code returns, \<open>*strconv.NumError\<close> (function, offending
  text, cause), and the three errors built with \<open>fmt.Errorf\<close> (their message arguments
  are the constructor arguments). The package also declares a value
  \<open>ErrNoSuitableTileSet\<close>; no function returns it, the resolver's failure is the formatted
  error \<open>NoSuitableTileSetFound\<close>. \<open>StreamError\<close> is any error of a library reader
  (base64, zlib, gzip); \<open>Panic\<close> is a run-time panic.
\<close>

datatype strconv_err = ErrSyntax | ErrRange

datatype error =
    ErrUnsupportedEncoding
  | ErrUnsupportedCompression
  | NumError string string strconv_err
  | LengthNotDivisibleBy4 nat
  | UnexpectedTerrainSpecifier string nat
  | NoSuitableTileSetFound GlobalID
  | StreamError string
  | Panic string

record TerrainType =
  TopLeft :: TileID
  TopRight :: TileID
  BottomLeft :: TileID
  BottomRight :: TileID

text \<open>
  Of the structs \<open>Tile\<close>, \<open>TileSet\<close>, \<open>Data\<close> and \<open>Layer\<close> the records keep the fields
  the decoding functions read or write; the remaining fields (sizes, images,
  properties) are plain data that no function below touches. A pointer into a slice
  (\<open>&tss[i]\<close>, \<open>&t.Tiles[i]\<close>) is the index \<open>i\<close>, a nil pointer is \<open>None\<close>.
\<close>

record Tile =
  TileID :: TileID
  RawTerrainType :: string
  terrainType :: "TerrainType option"

record TileSet =
  FirstGlobalID :: GlobalID
  Name :: string
  TileCount :: int
  Tiles :: "Tile list"

record TileGlobalRef =
  GlobalID :: GlobalID

record Data =
  Encoding :: string
  Compression :: string
  TileGlobalRefs :: "TileGlobalRef list"
  RawBytes :: string

text \<open>
  \<open>TileDef\<close>: the Go fields \<open>Nil\<close> and \<open>GlobalID\<close> are named \<open>IsNil\<close> and \<open>DefGlobalID\<close>
  here (the first is the name of the empty list, the second a field of
  \<open>TileGlobalRef\<close>).
\<close>

record TileDef =
  IsNil :: bool
  ID :: TileID
  DefGlobalID :: GlobalID
  TileSet :: "nat option"
  Tile :: "nat option"
  HorizontallyFlipped :: bool
  VerticallyFlipped :: bool
  DiagonallyFlipped :: bool

record Layer =
  RawData :: Data
  tileGlobalRefs :: "TileGlobalRef list"
  tileDefs :: "TileDef list"

text \<open>
  The library functions the package calls on whole streams and slices are parameters
  of the model: \<open>readAll_base64 raw\<close> is \<open>ioutil.ReadAll\<close> over
  \<open>base64.NewDecoder(base64.StdEncoding, bytes.NewReader(raw))\<close>; \<open>readAll_zlib raw\<close> and
  \<open>readAll_gzip raw\<close> are \<open>zlib.NewReader\<close> (\<open>gzip.NewReader\<close>) over that decoder followed
  by \<open>ioutil.ReadAll\<close>, the error being that of whichever step failed;
  \<open>sort_byFirstGlobalID\<close> is \<open>sort.Sort(byFirstGlobalID(tss))\<close>, which reorders the
  caller's slice in place (it is not a stable sort).
\<close>

record stdlib =
  readAll_base64 :: "string \<Rightarrow> string \<times> error option"
  readAll_zlib :: "string \<Rightarrow> string \<times> error option"
  readAll_gzip :: "string \<Rightarrow> string \<times> error option"
  sort_byFirstGlobalID :: "TileSet list \<Rightarrow> TileSet list"

text \<open>
  What \<open>sort.Sort\<close> guarantees with \<open>Less(i, j) = a[i].FirstGlobalID < a[j].FirstGlobalID\<close>:
  the result is a rearrangement of the input, ascending by first global id.
\<close>

definition sorts_byFirstGlobalID :: "(TileSet list \<Rightarrow> TileSet list) \<Rightarrow> bool" where
  "sorts_byFirstGlobalID srt =
     (\<forall>tss. sorted (map FirstGlobalID (srt tss)) \<and> mset (srt tss) = mset tss)"

text \<open>
  Instrumentation, absent from the Go code: each memoising method also returns a log
  of the computations it entered past its cache checks (decoding the payload,
  resolving the tile definitions, parsing the terrain descriptor), so that "returned
  from the cache" can be told from "computed again". A call answered from a cache or
  from the structured references logs nothing.
\<close>

datatype work = DecodedPayload | ResolvedTileDefs | ParsedTerrainType

section \<open>Global identifier codec\<close>

definition TileFlippedHorizontally :: u32 where
  "TileFlippedHorizontally = 0x80000000"

definition TileFlippedVertically :: u32 where
  "TileFlippedVertically = 0x40000000"

definition TileFlippedDiagonally :: u32 where
  "TileFlippedDiagonally = 0x20000000"

definition TileFlipped :: u32 where
  "TileFlipped = TileFlippedHorizontally OR TileFlippedVertically OR TileFlippedDiagonally"

definition GlobalID_IsFlippedHorizontally :: "GlobalID \<Rightarrow> bool" where
  "GlobalID_IsFlippedHorizontally g = (g AND TileFlippedHorizontally \<noteq> 0)"

definition GlobalID_IsFlippedVertically :: "GlobalID \<Rightarrow> bool" where
  "GlobalID_IsFlippedVertically g = (g AND TileFlippedVertically \<noteq> 0)"

definition GlobalID_IsFlippedDiagonally :: "GlobalID \<Rightarrow> bool" where
  "GlobalID_IsFlippedDiagonally g = (g AND TileFlippedDiagonally \<noteq> 0)"

text \<open>\<open>g &^ TileFlipped\<close> is "and not".\<close>

definition GlobalID_BareID :: "GlobalID \<Rightarrow> u32" where
  "GlobalID_BareID g = g AND NOT TileFlipped"

text \<open>The subtraction is Go's on \<open>uint32\<close>: it wraps around.\<close>

definition GlobalID_TileID :: "GlobalID \<Rightarrow> TileSet \<Rightarrow> TileID" where
  "GlobalID_TileID g t = GlobalID_BareID g - FirstGlobalID t"

section \<open>Library text functions\<close>

text \<open>
  The functions of Go's \<open>strings\<close> and \<open>strconv\<close> packages that the decoders call, as
  the library documents them, on byte strings.

  \<open>strings.TrimSpace\<close> removes leading and trailing white space as Unicode defines it:
  the ASCII characters tab, line feed, vertical tab, form feed, carriage return and
  space, and the code points U+0085, U+00A0, U+1680, U+2000 to U+200A, U+2028, U+2029,
  U+202F, U+205F and U+3000 in their UTF-8 encodings (two or three bytes). Bytes that
  are not a valid encoding decode to U+FFFD, which is not white space.
\<close>

definition isSpace1 :: "char \<Rightarrow> bool" where
  "isSpace1 a = ((9::int) \<le> of_char a \<and> (of_char a::int) \<le> 13 \<or> (of_char a::int) = 32)"

definition isSpace2 :: "char \<Rightarrow> char \<Rightarrow> bool" where
  "isSpace2 a b =
     ((of_char a::int) = 0xC2 \<and> ((of_char b::int) = 0x85 \<or> (of_char b::int) = 0xA0))"

definition isSpace3 :: "char \<Rightarrow> char \<Rightarrow> char \<Rightarrow> bool" where
  "isSpace3 a b c =
     (let x = (of_char a::int); y = (of_char b::int); z = (of_char c::int) in
        x = 0xE1 \<and> y = 0x9A \<and> z = 0x80
      \<or> x = 0xE2 \<and> y = 0x80 \<and> (0x80 \<le> z \<and> z \<le> 0x8A \<or> z = 0xA8 \<or> z = 0xA9 \<or> z = 0xAF)
      \<or> x = 0xE2 \<and> y = 0x81 \<and> z = 0x9F
      \<or> x = 0xE3 \<and> y = 0x80 \<and> z = 0x80)"

text \<open>
  \<open>trimLeading rv s\<close> drops white-space characters from the front of \<open>s\<close>. With
  \<open>rv = True\<close> the string is read back to front (the bytes of a character arrive in
  reverse), which is how the trailing white space is removed.
\<close>

fun trimLeading :: "bool \<Rightarrow> string \<Rightarrow> string" where
  "trimLeading rv [] = []"
| "trimLeading rv [a] = (if isSpace1 a then [] else [a])"
| "trimLeading rv [a, b] =
     (if isSpace1 a then trimLeading rv [b]
      else if (if rv then isSpace2 b a else isSpace2 a b) then []
      else [a, b])"
| "trimLeading rv (a # b # c # s) =
     (if isSpace1 a then trimLeading rv (b # c # s)
      else if (if rv then isSpace2 b a else isSpace2 a b) then trimLeading rv (c # s)
      else if (if rv then isSpace3 c b a else isSpace3 a b c) then trimLeading rv s
      else a # b # c # s)"

definition strings_TrimSpace :: "string \<Rightarrow> string" where
  "strings_TrimSpace s = rev (trimLeading True (rev (trimLeading False s)))"

text \<open>\<open>bytes.TrimSpace\<close> is the same function on a byte slice.\<close>

definition bytes_TrimSpace :: "string \<Rightarrow> string" where
  "bytes_TrimSpace s = strings_TrimSpace s"

text \<open>
  \<open>strings.Split(s, sep)\<close> for a separator of one byte: the fields between the
  separators, one more than there are separators (so one empty field for the empty
  string).
\<close>

fun strings_Split :: "string \<Rightarrow> char \<Rightarrow> string list" where
  "strings_Split [] sep = [[]]"
| "strings_Split (c # s) sep =
     (if c = sep then [] # strings_Split s sep
      else (case strings_Split s sep of
              f # fs \<Rightarrow> (c # f) # fs
            | [] \<Rightarrow> [[c]]))"

text \<open>
  \<open>strconv.ParseUint(s, 10, 32)\<close>. The empty string is a syntax error. The loop reads
  the bytes left to right: a byte that is not a decimal digit is a syntax error (a
  letter would be a digit of value at least 10, which base 10 refuses); the 64-bit
  accumulator \<open>n\<close> is checked against \<open>cutoff = maxUint64/10 + 1\<close> before it is
  multiplied, and the sum against wrap-around and against \<open>maxVal = 2^32 - 1\<close>. A range
  error returns \<open>maxVal\<close> beside the error. The \<open>uint64\<close> values are integers here, with
  the wrap-around of the addition written out.
\<close>

definition isDigit :: "char \<Rightarrow> bool" where
  "isDigit c = ((48::int) \<le> of_char c \<and> (of_char c::int) \<le> 57)"

definition digitVal :: "char \<Rightarrow> int" where
  "digitVal c = of_char c - 48"

definition maxVal32 :: int where
  "maxVal32 = 2 ^ 32 - 1"

definition cutoff64 :: int where
  "cutoff64 = (2 ^ 64 - 1) div 10 + 1"

fun ParseUint_loop :: "string \<Rightarrow> string \<Rightarrow> int \<Rightarrow> int \<times> error option" where
  "ParseUint_loop s0 [] n = (n, None)"
| "ParseUint_loop s0 (c # cs) n =
     (if \<not> isDigit c then (0, Some (NumError ''ParseUint'' s0 ErrSyntax))
      else if cutoff64 \<le> n then (maxVal32, Some (NumError ''ParseUint'' s0 ErrRange))
      else (let n10 = n * 10; n1 = (n10 + digitVal c) mod 2 ^ 64 in
            if n1 < n10 \<or> maxVal32 < n1
            then (maxVal32, Some (NumError ''ParseUint'' s0 ErrRange))
            else ParseUint_loop s0 cs n1))"

definition strconv_ParseUint :: "string \<Rightarrow> int \<times> error option" where
  "strconv_ParseUint s =
     (if s = [] then (0, Some (NumError ''ParseUint'' s ErrSyntax))
      else ParseUint_loop s s 0)"

text \<open>
  \<open>strconv.ParseInt(s, 10, 32)\<close>: an optional sign, then \<open>ParseUint\<close> on the rest. A
  syntax error is reported under the name \<open>ParseInt\<close> with the whole text; otherwise
  the magnitude is checked against \<open>2^31\<close>.
\<close>

definition strconv_ParseInt :: "string \<Rightarrow> int \<times> error option" where
  "strconv_ParseInt s0 =
     (if s0 = [] then (0, Some (NumError ''ParseInt'' s0 ErrSyntax))
      else (let neg = (hd s0 = CHR ''-'');
                s = (if hd s0 = CHR ''+'' \<or> hd s0 = CHR ''-'' then tl s0 else s0);
                cutoff = (2::int) ^ 31
            in case strconv_ParseUint s of
                 (un, Some (NumError f num ErrSyntax)) \<Rightarrow>
                   (0, Some (NumError ''ParseInt'' s0 ErrSyntax))
               | (un, err) \<Rightarrow>
                   if \<not> neg \<and> cutoff \<le> un
                   then (cutoff - 1, Some (NumError ''ParseInt'' s0 ErrRange))
                   else if neg \<and> cutoff < un
                   then (- cutoff, Some (NumError ''ParseInt'' s0 ErrRange))
                   else (if neg then - un else un, None)))"

text \<open>
  \<open>binary.LittleEndian.Uint32(b)\<close> on the four bytes of \<open>b\<close>:
  \<open>uint32(b[0]) | uint32(b[1])<<8 | uint32(b[2])<<16 | uint32(b[3])<<24\<close>.
\<close>

definition LittleEndian_Uint32 :: "string \<Rightarrow> u32" where
  "LittleEndian_Uint32 b =
     of_char (b ! 0) OR push_bit 8 (of_char (b ! 1)) OR push_bit 16 (of_char (b ! 2))
       OR push_bit 24 (of_char (b ! 3))"

section \<open>Payload decoders\<close>

text \<open>
  \<open>decodeB64LayerData\<close>: the loop \<open>for i := 0; i < len(b); i = i + 4\<close>. The slice
  expression \<open>b[i : i+4]\<close> panics when \<open>i + 4\<close> exceeds the capacity, taken here to be
  the length.
\<close>

function decodeB64_loop :: "string \<Rightarrow> nat \<Rightarrow> u32 list \<Rightarrow> u32 list \<times> error option" where
  "decodeB64_loop b i uis =
     (if i < length b
      then (if length b < i + 4 then ([], Some (Panic ''slice bounds out of range''))
            else decodeB64_loop b (i + 4) (uis @ [LittleEndian_Uint32 (take 4 (drop i b))]))
      else (uis, None))"
  by pat_completeness auto
termination
  by (relation "measure (\<lambda>(b, i, uis). length b - i)") auto

definition decodeB64LayerData :: "string \<Rightarrow> u32 list \<times> error option" where
  "decodeB64LayerData b =
     (if length b mod 4 \<noteq> 0 then ([], Some (LengthNotDivisibleBy4 (length b)))
      else decodeB64_loop b 0 [])"

text \<open>\<open>decodeCSVLayerData\<close>: the loop over the fields of \<open>strings.Split(string(b), ",")\<close>.\<close>

fun decodeCSV_loop :: "string list \<Rightarrow> u32 list \<Rightarrow> u32 list \<times> error option" where
  "decodeCSV_loop [] uis = (uis, None)"
| "decodeCSV_loop (s # strs) uis =
     (case strconv_ParseUint (strings_TrimSpace s) of
        (ui, Some err) \<Rightarrow> ([], Some err)
      | (ui, None) \<Rightarrow> decodeCSV_loop strs (uis @ [word_of_int ui]))"

definition decodeCSVLayerData :: "string \<Rightarrow> u32 list \<times> error option" where
  "decodeCSVLayerData b = decodeCSV_loop (strings_Split b CHR '','') []"

section \<open>Raw layer data\<close>

text \<open>
  \<open>Data.decodeB64Data\<close>: the raw bytes are trimmed and read through the base64
  decoder, and through the zlib or gzip reader if the compression tag says so.
  (\<open>defer reader.Close()\<close> does not change the results.)
\<close>

definition Data_decodeB64Data :: "stdlib \<Rightarrow> Data \<Rightarrow> string \<times> error option" where
  "Data_decodeB64Data lib d =
     (let raw = bytes_TrimSpace (RawBytes d) in
      if Compression d = ''zlib'' then readAll_zlib lib raw
      else if Compression d = ''gzip'' then readAll_gzip lib raw
      else if Compression d = [] then readAll_base64 lib raw
      else ([], Some ErrUnsupportedCompression))"

definition Data_Bytes :: "stdlib \<Rightarrow> Data \<Rightarrow> string \<times> error option" where
  "Data_Bytes lib d =
     (if Encoding d = ''base64'' then Data_decodeB64Data lib d
      else if Encoding d = ''csv'' then (RawBytes d, None)
      else if Encoding d = [] then (RawBytes d, None)
      else ([], Some ErrUnsupportedEncoding))"

section \<open>Layer decoding\<close>

text \<open>
  \<open>Layer.TileGlobalRefs\<close>. The result is the returned pair, the layer after the call
  (its cache field may have been assigned) and the log of the work done.
\<close>

definition Layer_TileGlobalRefs ::
    "stdlib \<Rightarrow> Layer \<Rightarrow> (TileGlobalRef list \<times> error option) \<times> Layer \<times> work list" where
  "Layer_TileGlobalRefs lib l =
     (if 0 < length (TileGlobalRefs (RawData l))
      then ((TileGlobalRefs (RawData l), None), l, [])
      else if tileGlobalRefs l \<noteq> [] then ((tileGlobalRefs l, None), l, [])
      else (case Data_Bytes lib (RawData l) of
              (bytes, Some err) \<Rightarrow> (([], Some err), l, [DecodedPayload])
            | (bytes, None) \<Rightarrow>
                (case (if Encoding (RawData l) = ''base64'' then decodeB64LayerData bytes
                       else if Encoding (RawData l) = ''csv'' then decodeCSVLayerData bytes
                       else ([], Some ErrUnsupportedEncoding)) of
                   (uis, Some err) \<Rightarrow> (([], Some err), l, [DecodedPayload])
                 | (uis, None) \<Rightarrow>
                     (let trs = map (\<lambda>ui. \<lparr>GlobalID = ui\<rparr>) uis
                      in ((trs, None), l\<lparr>tileGlobalRefs := trs\<rparr>, [DecodedPayload])))))"

text \<open>\<open>TileSet.TileWithID\<close>: the index of the first tile with the given id.\<close>

fun TileWithID_loop :: "Tile list \<Rightarrow> TileID \<Rightarrow> nat \<Rightarrow> nat option" where
  "TileWithID_loop [] tid i = None"
| "TileWithID_loop (t # ts) tid i =
     (if TileID t = tid then Some i else TileWithID_loop ts tid (Suc i))"

definition TileSet_TileWithID :: "TileSet \<Rightarrow> TileID \<Rightarrow> nat option" where
  "TileSet_TileWithID t tid = TileWithID_loop (Tiles t) tid 0"

text \<open>
  The tile-set scan of \<open>Layer.TileDefs\<close> (\<open>var ts *TileSet; for i := range tss\<close>):
  \<open>ts\<close> is the tile-set seen last, the loop breaks at the first tile-set whose first
  global id is above the bare id. \<open>findTileSet_loop rest bid i ts\<close> is the loop at index
  \<open>i\<close>, with \<open>rest\<close> the tile-sets from \<open>i\<close> on.
\<close>

fun findTileSet_loop :: "TileSet list \<Rightarrow> u32 \<Rightarrow> nat \<Rightarrow> nat option \<Rightarrow> nat option" where
  "findTileSet_loop [] bid i ts = ts"
| "findTileSet_loop (t # rest) bid i ts =
     (if bid < FirstGlobalID t then ts
      else findTileSet_loop rest bid (Suc i) (Some i))"

definition findTileSet :: "TileSet list \<Rightarrow> u32 \<Rightarrow> nat option" where
  "findTileSet tss bid = findTileSet_loop tss bid 0 None"

text \<open>\<open>&TileDef{Nil: true}\<close>: every other field has its zero value.\<close>

definition nilTileDef :: TileDef where
  "nilTileDef =
     \<lparr>IsNil = True, ID = 0, DefGlobalID = 0, TileSet = None, Tile = None,
      HorizontallyFlipped = False, VerticallyFlipped = False, DiagonallyFlipped = False\<rparr>"

text \<open>
  The loop \<open>for _, tgr := range tgrs\<close> of \<open>Layer.TileDefs\<close> over the sorted tile-sets,
  with the definitions appended so far. On a cell without a tile-set the function
  returns \<open>tds\<close> as it stands, and the error.
\<close>

fun TileDefs_loop ::
    "TileSet list \<Rightarrow> TileGlobalRef list \<Rightarrow> TileDef list \<Rightarrow> TileDef list \<times> error option" where
  "TileDefs_loop tss [] tds = (tds, None)"
| "TileDefs_loop tss (tgr # tgrs) tds =
     (let bid = GlobalID_BareID (GlobalID tgr) in
      if bid = 0 then TileDefs_loop tss tgrs (tds @ [nilTileDef])
      else (case findTileSet tss bid of
              None \<Rightarrow> (tds, Some (NoSuitableTileSetFound (GlobalID tgr)))
            | Some i \<Rightarrow>
                (let ts = tss ! i; tid = GlobalID_TileID (GlobalID tgr) ts in
                 TileDefs_loop tss tgrs
                   (tds @ [\<lparr>IsNil = False, ID = tid, DefGlobalID = GlobalID tgr,
                            TileSet = Some i, Tile = TileSet_TileWithID ts tid,
                            HorizontallyFlipped = GlobalID_IsFlippedHorizontally (GlobalID tgr),
                            VerticallyFlipped = GlobalID_IsFlippedVertically (GlobalID tgr),
                            DiagonallyFlipped = GlobalID_IsFlippedDiagonally (GlobalID tgr)\<rparr>]))))"

text \<open>
  \<open>Layer.TileDefs\<close>. The result is the returned pair, the layer after the call, the
  caller's tile-set slice after the call (sorted in place unless the cache answered)
  and the log of the work done.
\<close>

definition Layer_TileDefs ::
    "stdlib \<Rightarrow> Layer \<Rightarrow> TileSet list \<Rightarrow>
       (TileDef list \<times> error option) \<times> Layer \<times> TileSet list \<times> work list" where
  "Layer_TileDefs lib l tss =
     (if tileDefs l \<noteq> [] then ((tileDefs l, None), l, tss, [])
      else (case Layer_TileGlobalRefs lib l of
              ((tgrs, Some err), l1, w) \<Rightarrow> (([], Some err), l1, tss, ResolvedTileDefs # w)
            | ((tgrs, None), l1, w) \<Rightarrow>
                (let sorted_tss = sort_byFirstGlobalID lib tss in
                 case TileDefs_loop sorted_tss tgrs [] of
                   (tds, Some err) \<Rightarrow> ((tds, Some err), l1, sorted_tss, ResolvedTileDefs # w)
                 | (tds, None) \<Rightarrow>
                     ((tds, None), l1\<lparr>tileDefs := tds\<rparr>, sorted_tss, ResolvedTileDefs # w))))"

section \<open>Terrain corners\<close>

text \<open>
  The loop of \<open>Tile.TerrainType\<close> over the four fields, filling \<open>tid\<close>; \<open>TileID(id)\<close>
  converts the \<open>int64\<close> to \<open>uint32\<close>.
\<close>

fun TerrainType_loop :: "string list \<Rightarrow> nat \<Rightarrow> TileID list \<Rightarrow> TileID list \<times> error option" where
  "TerrainType_loop [] i tid = (tid, None)"
| "TerrainType_loop (s # strs) i tid =
     (case strconv_ParseInt (strings_TrimSpace (strings_TrimSpace s)) of
        (n, Some err) \<Rightarrow> (tid, Some err)
      | (n, None) \<Rightarrow> TerrainType_loop strs (Suc i) (tid[i := word_of_int n]))"

text \<open>
  \<open>Tile.TerrainType\<close>. The result is the returned pointer (\<open>None\<close> for nil) and error,
  the tile after the call and the log of the work done.
\<close>

definition Tile_TerrainType ::
    "Tile \<Rightarrow> (TerrainType option \<times> error option) \<times> Tile \<times> work list" where
  "Tile_TerrainType t =
     (if RawTerrainType t = []
      then ((Some \<lparr>TopLeft = 0, TopRight = 0, BottomLeft = 0, BottomRight = 0\<rparr>, None), t, [])
      else if terrainType t \<noteq> None then ((terrainType t, None), t, [])
      else (let strs = strings_Split (RawTerrainType t) CHR '','' in
            if length strs \<noteq> 4
            then ((terrainType t,
                   Some (UnexpectedTerrainSpecifier (RawTerrainType t) (length strs))),
                  t, [ParsedTerrainType])
            else (case TerrainType_loop strs 0 (replicate 4 0) of
                    (tid, Some err) \<Rightarrow> ((terrainType t, Some err), t, [ParsedTerrainType])
                  | (tid, None) \<Rightarrow>
                      (let tt = \<lparr>TopLeft = tid ! 0, TopRight = tid ! 1,
                                 BottomLeft = tid ! 2, BottomRight = tid ! 3\<rparr>
                       in ((Some tt, None), t\<lparr>terrainType := Some tt\<rparr>,
                           [ParsedTerrainType])))))"

section \<open>Notions used in the statements\<close>

text \<open>
  The tile definition that the loop of \<open>Layer.TileDefs\<close> appends for one cell, \<open>None\<close>
  when the cell has a non-zero bare id and the scan finds no tile-set.
\<close>

definition cellTileDef :: "TileSet list \<Rightarrow> TileGlobalRef \<Rightarrow> TileDef option" where
  "cellTileDef tss tgr =
     (let g = GlobalID tgr; bid = GlobalID_BareID g in
      if bid = 0 then Some nilTileDef
      else (case findTileSet tss bid of
              None \<Rightarrow> None
            | Some i \<Rightarrow>
                Some \<lparr>IsNil = False, ID = GlobalID_TileID g (tss ! i), DefGlobalID = g,
                      TileSet = Some i,
                      Tile = TileSet_TileWithID (tss ! i) (GlobalID_TileID g (tss ! i)),
                      HorizontallyFlipped = GlobalID_IsFlippedHorizontally g,
                      VerticallyFlipped = GlobalID_IsFlippedVertically g,
                      DiagonallyFlipped = GlobalID_IsFlippedDiagonally g\<rparr>))"

text \<open>
  What the specification calls a base-10 unsigned 32-bit integer: a non-empty string
  of decimal digits whose value is below \<open>2^32\<close>; and a (signed) integer literal of 32
  bits: an optional sign followed by digits, with value from \<open>-2^31\<close> to \<open>2^31 - 1\<close>.
\<close>

definition decimal :: "string \<Rightarrow> int" where
  "decimal s = foldl (\<lambda>n c. 10 * n + digitVal c) 0 s"

definition is_uint32_literal :: "string \<Rightarrow> bool" where
  "is_uint32_literal s = (s \<noteq> [] \<and> list_all isDigit s \<and> decimal s < 2 ^ 32)"

definition is_int_literal :: "string \<Rightarrow> bool" where
  "is_int_literal s =
     (case s of
        [] \<Rightarrow> False
      | c # cs \<Rightarrow>
          if c = CHR ''+'' \<or> c = CHR ''-'' then cs \<noteq> [] \<and> list_all isDigit cs
          else list_all isDigit s)"

definition int_value :: "string \<Rightarrow> int" where
  "int_value s =
     (case s of
        [] \<Rightarrow> 0
      | c # cs \<Rightarrow>
          if c = CHR ''-'' then - decimal cs
          else if c = CHR ''+'' then decimal cs
          else decimal s)"

definition is_int32_literal :: "string \<Rightarrow> bool" where
  "is_int32_literal s = (is_int_literal s \<and> - (2 ^ 31) \<le> int_value s \<and> int_value s < 2 ^ 31)"

text \<open>
  The text of a terrain field as the loop of \<open>Tile.TerrainType\<close> hands it to
  \<open>strconv.ParseInt\<close> (the code trims it twice), and the corner id that a valid field
  gives.
\<close>

definition terrainField :: "string \<Rightarrow> string" where
  "terrainField f = strings_TrimSpace (strings_TrimSpace f)"

definition cornerID :: "string \<Rightarrow> TileID" where
  "cornerID f = word_of_int (int_value (terrainField f))"

text \<open>
  A concrete library for the examples. Base64 text is decoded in groups of four
  characters of the standard alphabet, the last group padded with \<open>=\<close> (RFC 4648;
  carriage returns and line feeds are skipped, as Go's stream decoder does); the
  sort is an insertion sort. The examples carry no compressed payload, and the zlib
  and gzip readers of this library report every stream as corrupt.
\<close>

definition b64_value :: "char \<Rightarrow> int option" where
  "b64_value c =
     (let n = (of_char c :: int) in
      if 65 \<le> n \<and> n \<le> 90 then Some (n - 65)
      else if 97 \<le> n \<and> n \<le> 122 then Some (n - 71)
      else if 48 \<le> n \<and> n \<le> 57 then Some (n + 4)
      else if n = 43 then Some 62
      else if n = 47 then Some 63
      else None)"

fun b64_groups :: "string \<Rightarrow> string option" where
  "b64_groups [] = Some []"
| "b64_groups [a, b, c, d] =
     (case (b64_value a, b64_value b) of
        (Some x, Some y) \<Rightarrow>
          (if c = CHR ''='' \<and> d = CHR ''=''
           then Some [char_of ((x * 64 + y) div 16)]
           else (case b64_value c of
                   None \<Rightarrow> None
                 | Some z \<Rightarrow>
                     (if d = CHR ''=''
                      then Some [char_of (((x * 64 + y) * 64 + z) div 1024),
                                 char_of (((x * 64 + y) * 64 + z) div 4)]
                      else (case b64_value d of
                              None \<Rightarrow> None
                            | Some v \<Rightarrow>
                                Some [char_of ((((x * 64 + y) * 64 + z) * 64 + v) div 65536),
                                      char_of ((((x * 64 + y) * 64 + z) * 64 + v) div 256),
                                      char_of ((((x * 64 + y) * 64 + z) * 64 + v))]))))
      | _ \<Rightarrow> None)"
| "b64_groups (a # b # c # d # rest) =
     (case (b64_value a, b64_value b, b64_value c, b64_value d, b64_groups rest) of
        (Some x, Some y, Some z, Some v, Some bytes) \<Rightarrow>
          Some (char_of ((((x * 64 + y) * 64 + z) * 64 + v) div 65536)
                # char_of ((((x * 64 + y) * 64 + z) * 64 + v) div 256)
                # char_of ((((x * 64 + y) * 64 + z) * 64 + v)) # bytes)
      | _ \<Rightarrow> None)"
| "b64_groups _ = None"

definition base64_reader :: "string \<Rightarrow> string \<times> error option" where
  "base64_reader raw =
     (case b64_groups (filter (\<lambda>c. c \<noteq> CHR 0x0D \<and> c \<noteq> CHR 0x0A) raw) of
        Some bytes \<Rightarrow> (bytes, None)
      | None \<Rightarrow> ([], Some (StreamError ''illegal base64 data'')))"

definition example_lib :: stdlib where
  "example_lib =
     \<lparr>readAll_base64 = base64_reader,
      readAll_zlib = (\<lambda>raw. ([], Some (StreamError ''zlib: invalid header''))),
      readAll_gzip = (\<lambda>raw. ([], Some (StreamError ''gzip: invalid header''))),
      sort_byFirstGlobalID = sort_key FirstGlobalID\<rparr>"

text \<open>
  Example data: a tile-set with a name and a first global id and no tile metadata; a
  freshly parsed layer (empty caches) that carries structured references; a freshly
  parsed layer that carries an encoded blob.
\<close>

definition tileset_at :: "string \<Rightarrow> GlobalID \<Rightarrow> TileSet" where
  "tileset_at n g = \<lparr>FirstGlobalID = g, Name = n, TileCount = 0, Tiles = []\<rparr>"

definition refs_layer :: "string \<Rightarrow> string \<Rightarrow> string \<Rightarrow> GlobalID list \<Rightarrow> Layer" where
  "refs_layer enc cmpr raw gs =
     \<lparr>RawData = \<lparr>Encoding = enc, Compression = cmpr,
                  TileGlobalRefs = map (\<lambda>g. \<lparr>GlobalID = g\<rparr>) gs, RawBytes = raw\<rparr>,
      tileGlobalRefs = [], tileDefs = []\<rparr>"

definition blob_layer :: "string \<Rightarrow> string \<Rightarrow> string \<Rightarrow> Layer" where
  "blob_layer enc cmpr raw = refs_layer enc cmpr raw []"

section \<open>The flag bits and the bare id\<close>

lemma flag_bits:
  "TileFlippedHorizontally = 2 ^ 31"
  "TileFlippedVertically = 2 ^ 30"
  "TileFlippedDiagonally = 2 ^ 29"
  by (simp_all add: TileFlippedHorizontally_def TileFlippedVertically_def
      TileFlippedDiagonally_def)

lemma bit_TileFlipped: "bit TileFlipped n = (n = 31 \<or> n = 30 \<or> n = 29)"
  by (simp only: TileFlipped_def flag_bits bit_or_iff bit_exp_iff) auto

lemma bit_BareID: "bit (GlobalID_BareID g) n = (bit g n \<and> n < 29)"
proof -
  have "bit g n \<Longrightarrow> n < 32"
    using bit_imp_le_length [of g n] by simp
  then show ?thesis
    by (simp only: GlobalID_BareID_def bit_and_iff bit_not_iff bit_TileFlipped) (auto; arith)
qed

lemma IsFlippedHorizontally_bit: "GlobalID_IsFlippedHorizontally g = bit g 31"
  by (simp only: GlobalID_IsFlippedHorizontally_def flag_bits and_exp_eq_0_iff_not_bit) simp

lemma IsFlippedVertically_bit: "GlobalID_IsFlippedVertically g = bit g 30"
  by (simp only: GlobalID_IsFlippedVertically_def flag_bits and_exp_eq_0_iff_not_bit) simp

lemma IsFlippedDiagonally_bit: "GlobalID_IsFlippedDiagonally g = bit g 29"
  by (simp only: GlobalID_IsFlippedDiagonally_def flag_bits and_exp_eq_0_iff_not_bit) simp

lemma TileFlipped_value: "TileFlipped = 0x80000000 OR 0x40000000 OR 0x20000000"
  by (simp only: TileFlipped_def TileFlippedHorizontally_def TileFlippedVertically_def
      TileFlippedDiagonally_def)

text \<open>
  Claim C2. For every 32-bit value \<open>g\<close> the bare id is \<open>g\<close> with bits 31, 30 and 29
  cleared, \<open>g & ~(0x80000000|0x40000000|0x20000000)\<close> (so every lower bit of \<open>g\<close> is kept
  and the three top bits are 0), and the horizontal, vertical and diagonal flip
  predicates are exactly bit 31, bit 30 and bit 29 of \<open>g\<close>. The functions are total
  functions of the 32-bit value: there is no error result.
\<close>

theorem GlobalID_codec_bits:
  "GlobalID_BareID g = g AND NOT (0x80000000 OR 0x40000000 OR 0x20000000)
   \<and> (\<forall>n. bit (GlobalID_BareID g) n = (bit g n \<and> n \<noteq> 31 \<and> n \<noteq> 30 \<and> n \<noteq> 29))
   \<and> GlobalID_IsFlippedHorizontally g = bit g 31
   \<and> GlobalID_IsFlippedVertically g = bit g 30
   \<and> GlobalID_IsFlippedDiagonally g = bit g 29"
proof -
  have masked: "GlobalID_BareID g = g AND NOT (0x80000000 OR 0x40000000 OR 0x20000000)"
    by (simp only: GlobalID_BareID_def TileFlipped_value)
  have "bit (GlobalID_BareID g) n = (bit g n \<and> n \<noteq> 31 \<and> n \<noteq> 30 \<and> n \<noteq> 29)" for n
    using bit_imp_le_length [of g n]
    by (simp only: GlobalID_BareID_def bit_and_iff bit_not_iff bit_TileFlipped) auto
  with masked show ?thesis
    by (simp only: IsFlippedHorizontally_bit IsFlippedVertically_bit IsFlippedDiagonally_bit)
      simp
qed

text \<open>
  Claim C10. The local tile id is defined for every global id and every tile-set,
  and is the difference of the bare id and the tile-set's first global id modulo
  \<open>2^32\<close>: when the bare id is the smaller one, the result is not an error but the
  wrapped value \<open>bare + 2^32 - first\<close>.
\<close>

theorem GlobalID_TileID_wraps:
  "uint (GlobalID_TileID g t) = (uint (GlobalID_BareID g) - uint (FirstGlobalID t)) mod 2 ^ 32
   \<and> unat (GlobalID_TileID g t) =
       (if unat (FirstGlobalID t) \<le> unat (GlobalID_BareID g)
        then unat (GlobalID_BareID g) - unat (FirstGlobalID t)
        else unat (GlobalID_BareID g) + 2 ^ 32 - unat (FirstGlobalID t))"
  by (simp add: GlobalID_TileID_def uint_word_ariths unat_sub_if_size word_size)

section \<open>The base64 byte payload\<close>

lemma or_push_bit_add:
  fixes x y :: nat
  assumes "x < 2 ^ n"
  shows "x OR push_bit n y = x + push_bit n y"
proof -
  from assms have tb: "take_bit n x = x" by (simp add: take_bit_eq_mod)
  have "\<not> bit x k \<or> \<not> bit (push_bit n y) k" for k
    using bit_take_bit_iff [of n x k] by (auto simp add: tb bit_push_bit_iff)
  then show ?thesis by (simp add: disjunctive_add)
qed

lemma le_bytes_nat:
  fixes a b c d :: nat
  assumes "a < 256" "b < 256" "c < 256" "d < 256"
  shows "a OR push_bit 8 b OR push_bit 16 c OR push_bit 24 d =
         a + 256 * b + 65536 * c + 16777216 * d"
proof -
  have c': "c OR push_bit 8 d = c + push_bit 8 d"
    using assms by (intro or_push_bit_add) simp
  have b': "b OR push_bit 8 (c + push_bit 8 d) = b + push_bit 8 (c + push_bit 8 d)"
    using assms by (intro or_push_bit_add) simp
  have a': "a OR push_bit 8 (b + push_bit 8 (c + push_bit 8 d)) =
            a + push_bit 8 (b + push_bit 8 (c + push_bit 8 d))"
    using assms by (intro or_push_bit_add) simp
  have "a OR push_bit 8 b OR push_bit 16 c OR push_bit 24 d =
        a OR push_bit 8 (b OR push_bit 8 (c OR push_bit 8 d))"
    by (simp add: push_bit_or push_bit_push_bit)
  also have "\<dots> = a + push_bit 8 (b + push_bit 8 (c + push_bit 8 d))"
    by (simp only: c' b' a')
  also have "\<dots> = a + 256 * b + 65536 * c + 16777216 * d"
    by (simp add: push_bit_eq_mult)
  finally show ?thesis .
qed

lemma LittleEndian_Uint32_value:
  "unat (LittleEndian_Uint32 [a, b, c, d]) =
     of_char a + 256 * of_char b + 65536 * of_char c + 16777216 * of_char d"
proof -
  let ?n = "(of_char a :: nat) + 256 * of_char b + 65536 * of_char c + 16777216 * of_char d"
  have bound: "?n < 4294967296"
    using nat_of_char_less_256 [of a] nat_of_char_less_256 [of b]
      nat_of_char_less_256 [of c] nat_of_char_less_256 [of d] by linarith
  have "LittleEndian_Uint32 [a, b, c, d] =
      of_nat ((of_char a :: nat) OR push_bit 8 (of_char b) OR push_bit 16 (of_char c)
        OR push_bit 24 (of_char d))"
    by (simp add: LittleEndian_Uint32_def of_nat_or_eq of_nat_push_bit of_nat_of_char)
  also have "\<dots> = of_nat ?n"
    by (simp only: le_bytes_nat [OF nat_of_char_less_256 nat_of_char_less_256
          nat_of_char_less_256 nat_of_char_less_256])
  finally have "word_of_nat ?n = LittleEndian_Uint32 [a, b, c, d]"
    by (rule sym)
  then show ?thesis
    by (rule of_nat_inverse) (use bound in simp)
qed

lemma decodeB64_loop_eq:
  "i mod 4 = 0 \<Longrightarrow> length b mod 4 = 0 \<Longrightarrow>
   decodeB64_loop b i uis =
     (uis @ map (\<lambda>k. LittleEndian_Uint32 (take 4 (drop (4 * k) b))) [i div 4 ..< length b div 4], None)"
proof (induction b i uis rule: decodeB64_loop.induct)
  case (1 b i uis)
  show ?case
  proof (cases "i < length b")
    case False
    then have "length b div 4 \<le> i div 4" by (simp add: div_le_mono)
    with False show ?thesis by (simp add: decodeB64_loop.simps [of b i])
  next
    case True
    with "1.prems" have room: "i + 4 \<le> length b" by presburger
    have idx: "4 * (i div 4) = i" using "1.prems" by presburger
    have lt: "i div 4 < length b div 4" using True "1.prems" by presburger
    have nxt: "(i + 4) div 4 = Suc (i div 4)" by simp
    have "decodeB64_loop b i uis =
        decodeB64_loop b (i + 4) (uis @ [LittleEndian_Uint32 (take 4 (drop i b))])"
      using True room by (subst decodeB64_loop.simps) simp
    also have "\<dots> = ((uis @ [LittleEndian_Uint32 (take 4 (drop i b))]) @
        map (\<lambda>k. LittleEndian_Uint32 (take 4 (drop (4 * k) b))) [(i + 4) div 4 ..< length b div 4], None)"
      using True room "1.prems" by (intro "1.IH") simp_all
    also have "\<dots> = (uis @ map (\<lambda>k. LittleEndian_Uint32 (take 4 (drop (4 * k) b))) [i div 4 ..< length b div 4], None)"
      using lt by (simp add: nxt upt_conv_Cons idx)
    finally show ?thesis .
  qed
qed

lemma take4_drop:
  assumes "i + 4 \<le> length b"
  shows "take 4 (drop i b) = [b ! i, b ! (i + 1), b ! (i + 2), b ! (i + 3)]"
proof (rule nth_equalityI)
  show "length (take 4 (drop i b)) = length [b ! i, b ! (i + 1), b ! (i + 2), b ! (i + 3)]"
    using assms by simp
next
  fix j assume "j < length (take 4 (drop i b))"
  then have "j < 4" by simp
  then consider "j = 0" | "j = 1" | "j = 2" | "j = 3" by linarith
  then show "take 4 (drop i b) ! j = [b ! i, b ! (i + 1), b ! (i + 2), b ! (i + 3)] ! j"
    using assms by cases simp_all
qed

text \<open>
  Claim C3. For every byte payload \<open>b\<close> handed to \<open>decodeB64LayerData\<close> (the bytes
  after base64 decoding and decompression): if the length is not divisible by 4 the
  call fails with the length-mismatch error, which carries the length; otherwise it
  succeeds with exactly one value per consecutive group of four bytes, in stream
  order, and the value of a group is \<open>b0 + 256 b1 + 65536 b2 + 16777216 b3\<close>, the
  little-endian reading (no panic can occur).
\<close>

theorem decodeB64LayerData_groups:
  "(length b mod 4 \<noteq> 0 \<longrightarrow>
      decodeB64LayerData b = ([], Some (LengthNotDivisibleBy4 (length b))))
   \<and> (length b mod 4 = 0 \<longrightarrow>
      decodeB64LayerData b =
        (map (\<lambda>k. LittleEndian_Uint32 [b ! (4 * k), b ! (4 * k + 1), b ! (4 * k + 2), b ! (4 * k + 3)])
           [0 ..< length b div 4], None)
      \<and> (\<forall>k < length b div 4.
           unat (LittleEndian_Uint32 [b ! (4 * k), b ! (4 * k + 1), b ! (4 * k + 2), b ! (4 * k + 3)]) =
             of_char (b ! (4 * k)) + 256 * of_char (b ! (4 * k + 1))
               + 65536 * of_char (b ! (4 * k + 2)) + 16777216 * of_char (b ! (4 * k + 3))))"
proof (intro conjI impI allI)
  assume "length b mod 4 \<noteq> 0"
  then show "decodeB64LayerData b = ([], Some (LengthNotDivisibleBy4 (length b)))"
    by (simp add: decodeB64LayerData_def)
next
  assume len: "length b mod 4 = 0"
  have "take 4 (drop (4 * k) b) = [b ! (4 * k), b ! (4 * k + 1), b ! (4 * k + 2), b ! (4 * k + 3)]"
    if "k \<in> set [0 ..< length b div 4]" for k
  proof -
    from that len have "4 * k + 4 \<le> length b" by (simp; presburger)
    then show ?thesis by (rule take4_drop)
  qed
  then have "map (\<lambda>k. LittleEndian_Uint32 (take 4 (drop (4 * k) b))) [0 ..< length b div 4] =
      map (\<lambda>k. LittleEndian_Uint32 [b ! (4 * k), b ! (4 * k + 1), b ! (4 * k + 2), b ! (4 * k + 3)])
        [0 ..< length b div 4]"
    by (intro map_cong refl) simp
  with len decodeB64_loop_eq [of 0 b "[]"]
  show "decodeB64LayerData b =
        (map (\<lambda>k. LittleEndian_Uint32 [b ! (4 * k), b ! (4 * k + 1), b ! (4 * k + 2), b ! (4 * k + 3)])
           [0 ..< length b div 4], None)"
    by (simp add: decodeB64LayerData_def)
next
  fix k
  show "unat (LittleEndian_Uint32 [b ! (4 * k), b ! (4 * k + 1), b ! (4 * k + 2), b ! (4 * k + 3)]) =
             of_char (b ! (4 * k)) + 256 * of_char (b ! (4 * k + 1))
               + 65536 * of_char (b ! (4 * k + 2)) + 16777216 * of_char (b ! (4 * k + 3))"
    by (rule LittleEndian_Uint32_value)
qed

theorem decodeB64LayerData_groups_witness:
  "length ''abcdefg'' mod 4 \<noteq> 0
   \<and> decodeB64LayerData ''abcdefg'' = ([], Some (LengthNotDivisibleBy4 7))
   \<and> length [CHR 0x01, CHR 0x00, CHR 0x00, CHR 0x00, CHR 0x02, CHR 0x00, CHR 0x00, CHR 0x80] mod 4 = 0
   \<and> decodeB64LayerData [CHR 0x01, CHR 0x00, CHR 0x00, CHR 0x00, CHR 0x02, CHR 0x00, CHR 0x00, CHR 0x80]
       = ([1, 0x80000002], None)"
proof -
  have odd: "length ''abcdefg'' mod 4 \<noteq> 0" by simp
  with decodeB64LayerData_groups [of "''abcdefg''"]
  have seven: "decodeB64LayerData ''abcdefg'' = ([], Some (LengthNotDivisibleBy4 7))" by simp
  have "decodeB64LayerData [CHR 0x01, CHR 0x00, CHR 0x00, CHR 0x00, CHR 0x02, CHR 0x00, CHR 0x00, CHR 0x80]
       = ([1, 0x80000002], None)"
    by code_simp
  with odd seven show ?thesis by simp
qed

section \<open>The tile-set scan\<close>

lemma findTileSet_loop_takeWhile:
  "findTileSet_loop rest bid i ts =
     (case length (takeWhile (\<lambda>t. FirstGlobalID t \<le> bid) rest) of
        0 \<Rightarrow> ts
      | Suc k \<Rightarrow> Some (i + k))"
  by (induction rest arbitrary: i ts) (auto simp add: not_less split: nat.splits)

lemma findTileSet_takeWhile:
  "findTileSet tss bid =
     (case length (takeWhile (\<lambda>t. FirstGlobalID t \<le> bid) tss) of
        0 \<Rightarrow> None
      | Suc k \<Rightarrow> Some k)"
  by (simp add: findTileSet_def findTileSet_loop_takeWhile split: nat.splits)

lemma findTileSet_prefix:
  "findTileSet tss bid = findTileSet (takeWhile (\<lambda>t. FirstGlobalID t \<le> bid) tss) bid"
proof -
  have "takeWhile (\<lambda>t. FirstGlobalID t \<le> bid) (takeWhile (\<lambda>t. FirstGlobalID t \<le> bid) tss) =
      takeWhile (\<lambda>t. FirstGlobalID t \<le> bid) tss"
    by simp
  then show ?thesis by (simp add: findTileSet_takeWhile)
qed

lemma findTileSet_None_iff:
  "findTileSet tss bid = None \<longleftrightarrow> (tss = [] \<or> bid < FirstGlobalID (hd tss))"
  by (cases tss) (auto simp add: findTileSet_takeWhile not_le split: nat.splits)

lemma findTileSet_no_candidate:
  assumes "\<forall>t \<in> set tss. bid < FirstGlobalID t"
  shows "findTileSet tss bid = None"
  using assms by (cases tss) (auto simp add: findTileSet_None_iff)

lemma findTileSet_Some_bound:
  assumes "findTileSet tss bid = Some i"
  shows "i < length tss \<and> FirstGlobalID (tss ! i) \<le> bid"
proof -
  let ?tw = "takeWhile (\<lambda>t. FirstGlobalID t \<le> bid) tss"
  from assms have len: "length ?tw = Suc i"
    by (auto simp add: findTileSet_takeWhile split: nat.splits)
  then have "i < length ?tw" by simp
  moreover have "length ?tw \<le> length tss" by (rule length_takeWhile_le)
  ultimately have "i < length tss" by simp
  moreover have "?tw ! i = tss ! i" using \<open>i < length ?tw\<close> by (rule takeWhile_nth)
  moreover have "?tw ! i \<in> set ?tw" using \<open>i < length ?tw\<close> by simp
  then have "FirstGlobalID (?tw ! i) \<le> bid" by (auto dest: set_takeWhileD)
  ultimately show ?thesis by simp
qed

lemma findTileSet_sorted_last:
  assumes srt: "sorted (map FirstGlobalID tss)"
    and j: "j < length tss" "FirstGlobalID (tss ! j) \<le> bid"
  shows "\<exists>i. findTileSet tss bid = Some i \<and> j \<le> i"
proof -
  let ?P = "\<lambda>t. FirstGlobalID t \<le> bid"
  let ?n = "length (takeWhile ?P tss)"
  have "j < ?n"
  proof (rule ccontr)
    assume "\<not> j < ?n"
    then have nj: "?n \<le> j" by simp
    with j have "?n < length tss" by simp
    then have stop: "\<not> ?P (tss ! ?n)" by (rule nth_length_takeWhile)
    from srt nj j have "map FirstGlobalID tss ! ?n \<le> map FirstGlobalID tss ! j"
      by (intro sorted_nth_mono) simp_all
    with nj j have "FirstGlobalID (tss ! ?n) \<le> FirstGlobalID (tss ! j)" by simp
    with j stop show False by simp
  qed
  then obtain k where "?n = Suc k" "j \<le> k" by (cases ?n) auto
  then show ?thesis by (simp add: findTileSet_takeWhile)
qed


section \<open>The cell loop and the layer methods\<close>

lemma TileDefs_loop_cells:
  "TileDefs_loop tss tgrs tds =
     (tds @ map (the \<circ> cellTileDef tss) (takeWhile (\<lambda>c. cellTileDef tss c \<noteq> None) tgrs),
      case dropWhile (\<lambda>c. cellTileDef tss c \<noteq> None) tgrs of
        [] \<Rightarrow> None
      | c # _ \<Rightarrow> Some (NoSuitableTileSetFound (GlobalID c)))"
  by (induction tgrs arbitrary: tds)
    (auto simp add: cellTileDef_def Let_def split: option.splits)

lemma TileDefs_loop_all:
  assumes "\<forall>c \<in> set tgrs. cellTileDef tss c \<noteq> None"
  shows "TileDefs_loop tss tgrs tds = (tds @ map (the \<circ> cellTileDef tss) tgrs, None)"
proof -
  from assms have tw: "takeWhile (\<lambda>c. cellTileDef tss c \<noteq> None) tgrs = tgrs"
    and dw: "dropWhile (\<lambda>c. cellTileDef tss c \<noteq> None) tgrs = []"
    by simp_all
  show ?thesis unfolding TileDefs_loop_cells tw dw by simp
qed

lemma TileDefs_loop_first_failure:
  assumes "\<forall>c \<in> set pre. cellTileDef tss c \<noteq> None" and "cellTileDef tss tgr = None"
  shows "TileDefs_loop tss (pre @ tgr # post) tds =
     (tds @ map (the \<circ> cellTileDef tss) pre, Some (NoSuitableTileSetFound (GlobalID tgr)))"
proof -
  from assms have tw: "takeWhile (\<lambda>c. cellTileDef tss c \<noteq> None) (pre @ tgr # post) = pre"
    by simp
  from assms
  have dw: "dropWhile (\<lambda>c. cellTileDef tss c \<noteq> None) (pre @ tgr # post) = tgr # post"
    by simp
  show ?thesis unfolding TileDefs_loop_cells tw dw by simp
qed

lemma first_failure_split:
  assumes "c \<in> set tgrs" and "cellTileDef tss c = None"
  obtains pre tgr post where "tgrs = pre @ tgr # post"
    and "\<forall>c \<in> set pre. cellTileDef tss c \<noteq> None" and "cellTileDef tss tgr = None"
proof -
  let ?P = "\<lambda>c. cellTileDef tss c \<noteq> None"
  from assms have "dropWhile ?P tgrs \<noteq> []" by (auto simp add: dropWhile_eq_Nil_conv)
  then obtain tgr post where dw: "dropWhile ?P tgrs = tgr # post" by (cases "dropWhile ?P tgrs") auto
  then have "\<not> ?P tgr" using hd_dropWhile [of ?P tgrs] by auto
  moreover have "tgrs = takeWhile ?P tgrs @ tgr # post" using dw by (metis takeWhile_dropWhile_id)
  moreover have "\<forall>c \<in> set (takeWhile ?P tgrs). ?P c" by (auto dest: set_takeWhileD)
  ultimately show ?thesis using that by blast
qed

lemma Layer_TileGlobalRefs_keeps:
  assumes "Layer_TileGlobalRefs lib l = (r, l1, w)"
  shows "tileDefs l1 = tileDefs l \<and> RawData l1 = RawData l"
  using assms
  by (auto simp add: Layer_TileGlobalRefs_def Let_def split: if_splits prod.splits option.splits)

lemma Layer_TileDefs_uncached:
  assumes "tileDefs l = []" and "Layer_TileGlobalRefs lib l = ((tgrs, None), l1, w)"
  shows "Layer_TileDefs lib l tss =
     (case TileDefs_loop (sort_byFirstGlobalID lib tss) tgrs [] of
        (tds, Some err) \<Rightarrow>
          ((tds, Some err), l1, sort_byFirstGlobalID lib tss, ResolvedTileDefs # w)
      | (tds, None) \<Rightarrow>
          ((tds, None), l1\<lparr>tileDefs := tds\<rparr>, sort_byFirstGlobalID lib tss, ResolvedTileDefs # w))"
  using assms by (simp add: Layer_TileDefs_def Let_def)

lemma sorts_set:
  assumes "sorts_byFirstGlobalID srt"
  shows "set (srt tss) = set tss" and "sorted (map FirstGlobalID (srt tss))"
  using assms mset_eq_setD [of "srt tss" tss] by (auto simp add: sorts_byFirstGlobalID_def)

lemma sorts_sort_key: "sorts_byFirstGlobalID (sort_key FirstGlobalID)"
  by (simp add: sorts_byFirstGlobalID_def)

lemma example_lib_sorts: "sorts_byFirstGlobalID (sort_byFirstGlobalID example_lib)"
  by (simp add: example_lib_def sorts_sort_key)

text \<open>
  Claim C1. For a tile-set collection sorted ascending by first global id and a
  non-zero bare id: if some tile-set has a first id not above the bare id, the scan
  returns the last such tile-set (its index \<open>i\<close>: every index whose tile-set has a first
  id not above the bare id is at most \<open>i\<close>); the scan stops at the first tile-set whose
  first id exceeds the bare id (its result is that of the scan over the tile-sets
  before that one); and if no tile-set has a first id not above the bare id (the
  empty collection included) the scan finds nothing and \<open>Layer.TileDefs\<close> of every
  layer with such a cell fails with the no-suitable-tileset error and caches nothing.
\<close>

theorem findTileSet_resolves:
  assumes "sorted (map FirstGlobalID tss)" and "bid \<noteq> 0"
  shows
    "((\<exists>t \<in> set tss. FirstGlobalID t \<le> bid) \<longrightarrow>
        (\<exists>i. findTileSet tss bid = Some i \<and> i < length tss \<and> FirstGlobalID (tss ! i) \<le> bid
           \<and> (\<forall>j < length tss. FirstGlobalID (tss ! j) \<le> bid \<longrightarrow> j \<le> i)))
     \<and> findTileSet tss bid = findTileSet (takeWhile (\<lambda>t. FirstGlobalID t \<le> bid) tss) bid
     \<and> ((\<forall>t \<in> set tss. bid < FirstGlobalID t) \<longrightarrow>
          findTileSet tss bid = None
          \<and> (\<forall>lib l tgrs l1 w c.
                sorts_byFirstGlobalID (sort_byFirstGlobalID lib) \<and> tileDefs l = []
                \<and> Layer_TileGlobalRefs lib l = ((tgrs, None), l1, w)
                \<and> c \<in> set tgrs \<and> GlobalID_BareID (GlobalID c) = bid
              \<longrightarrow> (\<exists>tds g l' tss' w'.
                     Layer_TileDefs lib l tss = ((tds, Some (NoSuitableTileSetFound g)), l', tss', w')
                     \<and> tileDefs l' = [])))"
proof (intro conjI impI allI)
  assume "\<exists>t \<in> set tss. FirstGlobalID t \<le> bid"
  then obtain j where j: "j < length tss" "FirstGlobalID (tss ! j) \<le> bid"
    by (auto simp add: in_set_conv_nth)
  with assms(1) obtain i where i: "findTileSet tss bid = Some i"
    using findTileSet_sorted_last by blast
  have "k \<le> i" if "k < length tss" "FirstGlobalID (tss ! k) \<le> bid" for k
    using findTileSet_sorted_last [OF assms(1) that] i by simp
  with i findTileSet_Some_bound [OF i]
  show "\<exists>i. findTileSet tss bid = Some i \<and> i < length tss \<and> FirstGlobalID (tss ! i) \<le> bid
           \<and> (\<forall>j < length tss. FirstGlobalID (tss ! j) \<le> bid \<longrightarrow> j \<le> i)"
    by blast
next
  show "findTileSet tss bid = findTileSet (takeWhile (\<lambda>t. FirstGlobalID t \<le> bid) tss) bid"
    by (rule findTileSet_prefix)
next
  assume "\<forall>t \<in> set tss. bid < FirstGlobalID t"
  then show "findTileSet tss bid = None" by (rule findTileSet_no_candidate)
next
  fix lib l tgrs l1 w c
  assume none: "\<forall>t \<in> set tss. bid < FirstGlobalID t"
    and hyp: "sorts_byFirstGlobalID (sort_byFirstGlobalID lib) \<and> tileDefs l = []
                \<and> Layer_TileGlobalRefs lib l = ((tgrs, None), l1, w)
                \<and> c \<in> set tgrs \<and> GlobalID_BareID (GlobalID c) = bid"
  let ?stss = "sort_byFirstGlobalID lib tss"
  from hyp have "set ?stss = set tss" by (simp add: sorts_set)
  with none have "findTileSet ?stss bid = None" by (intro findTileSet_no_candidate) simp
  with hyp assms(2) have "cellTileDef ?stss c = None" by (simp add: cellTileDef_def)
  with hyp obtain pre tgr post where split: "tgrs = pre @ tgr # post"
    "\<forall>c \<in> set pre. cellTileDef ?stss c \<noteq> None" "cellTileDef ?stss tgr = None"
    using first_failure_split [of c tgrs ?stss] by blast
  from hyp Layer_TileGlobalRefs_keeps have "tileDefs l1 = []" by metis
  with hyp split(1) TileDefs_loop_first_failure [OF split(2,3), of post "[]"]
  show "\<exists>tds g l' tss' w'.
      Layer_TileDefs lib l tss = ((tds, Some (NoSuitableTileSetFound g)), l', tss', w')
      \<and> tileDefs l' = []"
    by (simp add: Layer_TileDefs_uncached)
qed


theorem findTileSet_resolves_witness:
  "sorted (map FirstGlobalID [tileset_at ''A'' 1, tileset_at ''B'' 100, tileset_at ''C'' 250])
   \<and> (249 :: u32) \<noteq> 0
   \<and> (\<exists>t \<in> set [tileset_at ''A'' 1, tileset_at ''B'' 100, tileset_at ''C'' 250].
         FirstGlobalID t \<le> 249)
   \<and> findTileSet [tileset_at ''A'' 1, tileset_at ''B'' 100, tileset_at ''C'' 250] 249 = Some 1
   \<and> map (findTileSet [tileset_at ''A'' 1, tileset_at ''B'' 100, tileset_at ''C'' 250])
        [1, 99, 100, 249, 250, 100000] = [Some 0, Some 0, Some 1, Some 1, Some 2, Some 2]
   \<and> sorted (map FirstGlobalID [tileset_at ''B'' 100]) \<and> (50 :: u32) \<noteq> 0
   \<and> 50 < FirstGlobalID (tileset_at ''B'' 100)
   \<and> sorts_byFirstGlobalID (sort_byFirstGlobalID example_lib)
   \<and> findTileSet [tileset_at ''B'' 100] 50 = None
   \<and> fst (Layer_TileDefs example_lib (refs_layer [] [] [] [50]) [tileset_at ''B'' 100])
       = ([], Some (NoSuitableTileSetFound 50))
   \<and> fst (Layer_TileDefs example_lib (refs_layer [] [] [] [50]) [])
       = ([], Some (NoSuitableTileSetFound 50))"
proof -
  have s3: "sorted (map FirstGlobalID [tileset_at ''A'' 1, tileset_at ''B'' 100, tileset_at ''C'' 250])"
    by (simp add: tileset_at_def)
  have nz249: "(249 :: u32) \<noteq> 0" by simp
  have ex: "\<exists>t \<in> set [tileset_at ''A'' 1, tileset_at ''B'' 100, tileset_at ''C'' 250].
         FirstGlobalID t \<le> 249"
    by (simp add: tileset_at_def)
  have scan: "findTileSet [tileset_at ''A'' 1, tileset_at ''B'' 100, tileset_at ''C'' 250] 249 = Some 1"
    by code_simp
  have scans: "map (findTileSet [tileset_at ''A'' 1, tileset_at ''B'' 100, tileset_at ''C'' 250])
        [1, 99, 100, 249, 250, 100000] = [Some 0, Some 0, Some 1, Some 1, Some 2, Some 2]"
    by code_simp
  have s1: "sorted (map FirstGlobalID [tileset_at ''B'' 100])"
    by simp
  have nz50: "(50 :: u32) \<noteq> 0" by simp
  have none: "\<forall>t \<in> set [tileset_at ''B'' 100]. 50 < FirstGlobalID t"
    by (simp add: tileset_at_def)
  have above: "50 < FirstGlobalID (tileset_at ''B'' 100)"
    by (simp add: tileset_at_def)
  have miss: "findTileSet [tileset_at ''B'' 100] 50 = None"
    by (rule findTileSet_resolves [OF s1 nz50, THEN conjunct2, THEN conjunct2, THEN mp,
          OF none, THEN conjunct1])
  have fail: "fst (Layer_TileDefs example_lib (refs_layer [] [] [] [50]) [tileset_at ''B'' 100])
       = ([], Some (NoSuitableTileSetFound 50))"
    by code_simp
  have fail0: "fst (Layer_TileDefs example_lib (refs_layer [] [] [] [50]) [])
       = ([], Some (NoSuitableTileSetFound 50))"
    by code_simp
  show ?thesis
    by (intro conjI s3 nz249 ex scan scans s1 nz50 above example_lib_sorts miss fail fail0)
qed

section \<open>Empty cells\<close>

lemma BareID_zero_iff: "GlobalID_BareID g = 0 \<longleftrightarrow> (\<forall>n < 29. \<not> bit g n)"
proof
  assume "GlobalID_BareID g = 0"
  then have "\<not> bit (GlobalID_BareID g) n" for n by simp
  then show "\<forall>n < 29. \<not> bit g n" by (auto simp add: bit_BareID)
next
  assume "\<forall>n < 29. \<not> bit g n"
  then have "\<not> bit (GlobalID_BareID g) n" for n by (auto simp add: bit_BareID)
  then show "GlobalID_BareID g = 0" by (simp add: bit_eq_iff)
qed

text \<open>
  Claim C5. For every global id whose bare id is 0 (its low 29 bits are 0, whatever
  the three flip bits are) the loop of \<open>Layer.TileDefs\<close> appends the nil tile
  definition, \<open>Nil\<close> set and every other field zero (no tile-set, no tile, tile id 0,
  flip flags false even when the flip bits are set), and goes on with the next cell:
  the step is the same for every tile-set collection, the scan is not consulted and
  no error arises from the cell. A layer all of whose cells are empty decodes to nil
  definitions with any tile-sets, also with none.
\<close>

theorem empty_cell_nil_TileDef:
  assumes "GlobalID_BareID g = 0"
  shows
    "TileDefs_loop tss (\<lparr>GlobalID = g\<rparr> # tgrs) tds =
       TileDefs_loop tss tgrs
         (tds @ [\<lparr>IsNil = True, ID = 0, DefGlobalID = 0, TileSet = None, Tile = None,
                  HorizontallyFlipped = False, VerticallyFlipped = False,
                  DiagonallyFlipped = False\<rparr>])
     \<and> (\<forall>lib l cells l1 w.
           tileDefs l = [] \<and> Layer_TileGlobalRefs lib l = ((cells, None), l1, w)
           \<and> (\<forall>c \<in> set cells. GlobalID_BareID (GlobalID c) = 0)
         \<longrightarrow> fst (Layer_TileDefs lib l tss) =
               (replicate (length cells)
                  \<lparr>IsNil = True, ID = 0, DefGlobalID = 0, TileSet = None, Tile = None,
                   HorizontallyFlipped = False, VerticallyFlipped = False,
                   DiagonallyFlipped = False\<rparr>, None))"
proof (intro conjI allI impI)
  from assms show "TileDefs_loop tss (\<lparr>GlobalID = g\<rparr> # tgrs) tds =
       TileDefs_loop tss tgrs
         (tds @ [\<lparr>IsNil = True, ID = 0, DefGlobalID = 0, TileSet = None, Tile = None,
                  HorizontallyFlipped = False, VerticallyFlipped = False,
                  DiagonallyFlipped = False\<rparr>])"
    by (simp add: nilTileDef_def)
next
  fix lib l cells l1 w
  assume hyp: "tileDefs l = [] \<and> Layer_TileGlobalRefs lib l = ((cells, None), l1, w)
           \<and> (\<forall>c \<in> set cells. GlobalID_BareID (GlobalID c) = 0)"
  let ?stss = "sort_byFirstGlobalID lib tss"
  from hyp have cell: "\<forall>c \<in> set cells. cellTileDef ?stss c = Some nilTileDef"
    by (simp add: cellTileDef_def)
  then have "\<forall>c \<in> set cells. cellTileDef ?stss c \<noteq> None" by simp
  then have "TileDefs_loop ?stss cells [] = (map (the \<circ> cellTileDef ?stss) cells, None)"
    using TileDefs_loop_all [of cells ?stss "[]"] by simp
  moreover from cell have "map (the \<circ> cellTileDef ?stss) cells = replicate (length cells) nilTileDef"
    by (simp add: map_replicate_const [symmetric] cong: map_cong)
  ultimately show "fst (Layer_TileDefs lib l tss) =
               (replicate (length cells)
                  \<lparr>IsNil = True, ID = 0, DefGlobalID = 0, TileSet = None, Tile = None,
                   HorizontallyFlipped = False, VerticallyFlipped = False,
                   DiagonallyFlipped = False\<rparr>, None)"
    using hyp by (simp add: Layer_TileDefs_uncached nilTileDef_def)
qed

theorem empty_cell_nil_TileDef_witness:
  "GlobalID_BareID 0xE0000000 = 0
   \<and> TileDefs_loop [] [\<lparr>GlobalID = 0xE0000000\<rparr>] [] =
       ([\<lparr>IsNil = True, ID = 0, DefGlobalID = 0, TileSet = None, Tile = None,
          HorizontallyFlipped = False, VerticallyFlipped = False,
          DiagonallyFlipped = False\<rparr>], None)
   \<and> fst (Layer_TileDefs example_lib (refs_layer [] [] [] [0, 0x80000000, 0x60000000]) []) =
       (replicate 3
          \<lparr>IsNil = True, ID = 0, DefGlobalID = 0, TileSet = None, Tile = None,
           HorizontallyFlipped = False, VerticallyFlipped = False,
           DiagonallyFlipped = False\<rparr>, None)"
proof -
  have z: "GlobalID_BareID 0xE0000000 = 0"
    by (simp add: GlobalID_BareID_def TileFlipped_value)
  have one: "TileDefs_loop [] [\<lparr>GlobalID = 0xE0000000\<rparr>] [] =
       ([\<lparr>IsNil = True, ID = 0, DefGlobalID = 0, TileSet = None, Tile = None,
          HorizontallyFlipped = False, VerticallyFlipped = False,
          DiagonallyFlipped = False\<rparr>], None)"
    using empty_cell_nil_TileDef [OF z, THEN conjunct1, of "[]" "[]" "[]"] by simp
  have layer: "fst (Layer_TileDefs example_lib (refs_layer [] [] [] [0, 0x80000000, 0x60000000]) []) =
       (replicate 3
          \<lparr>IsNil = True, ID = 0, DefGlobalID = 0, TileSet = None, Tile = None,
           HorizontallyFlipped = False, VerticallyFlipped = False,
           DiagonallyFlipped = False\<rparr>, None)"
    by code_simp
  show ?thesis by (intro conjI z one layer)
qed

section \<open>Failure of a cell\<close>

lemma cellTileDef_None_iff:
  "cellTileDef tss c = None \<longleftrightarrow>
     GlobalID_BareID (GlobalID c) \<noteq> 0 \<and> findTileSet tss (GlobalID_BareID (GlobalID c)) = None"
  by (simp add: cellTileDef_def Let_def split: option.splits)

lemma Layer_TileGlobalRefs_stores:
  assumes "Layer_TileGlobalRefs lib l = ((cells, None), l', w)"
  shows "l' = (if 0 < length (TileGlobalRefs (RawData l)) \<or> tileGlobalRefs l \<noteq> [] then l
               else l\<lparr>tileGlobalRefs := cells\<rparr>)"
  using assms
  by (auto simp add: Layer_TileGlobalRefs_def Let_def split: if_splits prod.splits option.splits)

lemma Layer_TileGlobalRefs_fails:
  assumes "Layer_TileGlobalRefs lib l = ((part, Some err), l', w)"
  shows "l' = l \<and> part = []"
  using assms
  by (auto simp add: Layer_TileGlobalRefs_def Let_def split: if_splits prod.splits option.splits)

text \<open>
  Claim C8, as stated, is refuted by a layer of two cells, global ids 100 and 50, with
  the single tile-set at first id 100: the second cell has no tile-set, the call
  returns the error, and beside it the definition of the first cell.
\<close>

theorem TileDefs_partial_result_counterexample:
  "fst (Layer_TileDefs example_lib (refs_layer [] [] [] [100, 50]) [tileset_at ''B'' 100]) =
     ([\<lparr>IsNil = False, ID = 0, DefGlobalID = 100, TileSet = Some 0, Tile = None,
        HorizontallyFlipped = False, VerticallyFlipped = False, DiagonallyFlipped = False\<rparr>],
      Some (NoSuitableTileSetFound 50))"
  by code_simp

text \<open>
  Claim C8, amended: the complete behaviour of \<open>Layer.TileDefs\<close>, for every layer,
  library and tile-set collection.

  \<^item> A layer that holds a non-empty sequence of cached definitions returns that
    sequence with a nil error, whatever the tile-sets; the layer and the caller's
    tile-sets are untouched and nothing is resolved.

  \<^item> Otherwise, if \<open>Layer.TileGlobalRefs\<close> returns the references \<open>cells\<close> without an
    error, leaving the layer as \<open>l'\<close>: \<open>l'\<close> is the layer itself when it carries structured
    references or a non-empty reference cache, and otherwise the layer with \<open>cells\<close>
    stored in its reference cache. The tile-sets are sorted, and

    \<^item> if some cell has a non-zero bare id for which the scan finds no tile-set, then
      with \<open>c\<close> the first such cell and \<open>pre\<close> the cells before it, the call returns
      the no-suitable-tileset error of \<open>c\<close> and, beside it, the definitions of the
      cells of \<open>pre\<close> in order: fewer definitions than the layer has cells, and none
      at all exactly when \<open>c\<close> is the first cell. The layer after the call is \<open>l'\<close>:
      its definition cache is empty, its reference cache as just said;

    \<^item> if every cell has a bare id of 0 or a tile-set, the call returns, with a nil
      error, one definition per cell in cell order, and stores that sequence in the
      definition cache of \<open>l'\<close>;

    \<^item> so the error is nil exactly when every cell resolves.

  \<^item> Otherwise, if \<open>Layer.TileGlobalRefs\<close> returns an error, the call returns that error
    and the empty sequence; the layer is unchanged and the tile-sets are not sorted.
\<close>

theorem TileDefs_fails_or_full:
  "(tileDefs l \<noteq> [] \<longrightarrow> Layer_TileDefs lib l tss = ((tileDefs l, None), l, tss, []))
   \<and> (tileDefs l = [] \<and> Layer_TileGlobalRefs lib l = ((cells, None), l', w) \<longrightarrow>
        l' = (if 0 < length (TileGlobalRefs (RawData l)) \<or> tileGlobalRefs l \<noteq> [] then l
              else l\<lparr>tileGlobalRefs := cells\<rparr>)
        \<and> ((\<exists>c \<in> set cells. GlobalID_BareID (GlobalID c) \<noteq> 0
               \<and> findTileSet (sort_byFirstGlobalID lib tss) (GlobalID_BareID (GlobalID c)) = None)
            \<longrightarrow> (\<exists>pre c post.
                   cells = pre @ c # post
                   \<and> (\<forall>p \<in> set pre. cellTileDef (sort_byFirstGlobalID lib tss) p \<noteq> None)
                   \<and> GlobalID_BareID (GlobalID c) \<noteq> 0
                   \<and> findTileSet (sort_byFirstGlobalID lib tss) (GlobalID_BareID (GlobalID c))
                       = None
                   \<and> Layer_TileDefs lib l tss =
                       ((map (the \<circ> cellTileDef (sort_byFirstGlobalID lib tss)) pre,
                         Some (NoSuitableTileSetFound (GlobalID c))),
                        l', sort_byFirstGlobalID lib tss, ResolvedTileDefs # w)
                   \<and> length (fst (fst (Layer_TileDefs lib l tss))) = length pre
                   \<and> length (fst (fst (Layer_TileDefs lib l tss))) < length cells
                   \<and> (fst (fst (Layer_TileDefs lib l tss)) = [] \<longleftrightarrow> pre = [])
                   \<and> tileDefs l' = []))
        \<and> ((\<forall>c \<in> set cells. GlobalID_BareID (GlobalID c) = 0
               \<or> findTileSet (sort_byFirstGlobalID lib tss) (GlobalID_BareID (GlobalID c)) \<noteq> None)
            \<longrightarrow> Layer_TileDefs lib l tss =
                  ((map (the \<circ> cellTileDef (sort_byFirstGlobalID lib tss)) cells, None),
                   l'\<lparr>tileDefs := map (the \<circ> cellTileDef (sort_byFirstGlobalID lib tss)) cells\<rparr>,
                   sort_byFirstGlobalID lib tss, ResolvedTileDefs # w))
        \<and> (snd (fst (Layer_TileDefs lib l tss)) = None \<longleftrightarrow>
             (\<forall>c \<in> set cells. GlobalID_BareID (GlobalID c) = 0
               \<or> findTileSet (sort_byFirstGlobalID lib tss) (GlobalID_BareID (GlobalID c))
                    \<noteq> None)))
   \<and> (tileDefs l = [] \<and> Layer_TileGlobalRefs lib l = ((part, Some err), l'', w') \<longrightarrow>
        Layer_TileDefs lib l tss = (([], Some err), l, tss, ResolvedTileDefs # w') \<and> l'' = l)"
proof -
  let ?stss = "sort_byFirstGlobalID lib tss"
  let ?fails = "\<exists>c \<in> set cells. GlobalID_BareID (GlobalID c) \<noteq> 0
               \<and> findTileSet ?stss (GlobalID_BareID (GlobalID c)) = None"
  let ?full = "\<forall>c \<in> set cells. GlobalID_BareID (GlobalID c) = 0
               \<or> findTileSet ?stss (GlobalID_BareID (GlobalID c)) \<noteq> None"
  have cached: "Layer_TileDefs lib l tss = ((tileDefs l, None), l, tss, [])"
    if "tileDefs l \<noteq> []"
    using that by (simp add: Layer_TileDefs_def)
  have decode_fails:
    "Layer_TileDefs lib l tss = (([], Some err), l, tss, ResolvedTileDefs # w') \<and> l'' = l"
    if "tileDefs l = []" "Layer_TileGlobalRefs lib l = ((part, Some err), l'', w')"
    using that Layer_TileGlobalRefs_fails [OF that(2)] by (simp add: Layer_TileDefs_def)
  have failing: "\<exists>pre c post.
                   cells = pre @ c # post
                   \<and> (\<forall>p \<in> set pre. cellTileDef ?stss p \<noteq> None)
                   \<and> GlobalID_BareID (GlobalID c) \<noteq> 0
                   \<and> findTileSet ?stss (GlobalID_BareID (GlobalID c)) = None
                   \<and> Layer_TileDefs lib l tss =
                       ((map (the \<circ> cellTileDef ?stss) pre,
                         Some (NoSuitableTileSetFound (GlobalID c))),
                        l', ?stss, ResolvedTileDefs # w)
                   \<and> length (fst (fst (Layer_TileDefs lib l tss))) = length pre
                   \<and> length (fst (fst (Layer_TileDefs lib l tss))) < length cells
                   \<and> (fst (fst (Layer_TileDefs lib l tss)) = [] \<longleftrightarrow> pre = [])
                   \<and> tileDefs l' = []"
    if un: "tileDefs l = []" and refs: "Layer_TileGlobalRefs lib l = ((cells, None), l', w)"
      and f: ?fails
  proof -
    from f obtain c0 where "c0 \<in> set cells" "cellTileDef ?stss c0 = None"
      by (auto simp add: cellTileDef_None_iff)
    then obtain pre c post where split: "cells = pre @ c # post"
      "\<forall>p \<in> set pre. cellTileDef ?stss p \<noteq> None" "cellTileDef ?stss c = None"
      by (rule first_failure_split)
    from un refs Layer_TileGlobalRefs_keeps have empty: "tileDefs l' = []" by metis
    have res: "Layer_TileDefs lib l tss =
        ((map (the \<circ> cellTileDef ?stss) pre, Some (NoSuitableTileSetFound (GlobalID c))), l',
         ?stss, ResolvedTileDefs # w)"
      using un refs split(1) TileDefs_loop_first_failure [OF split(2,3), of post "[]"]
      by (simp add: Layer_TileDefs_uncached)
    have "length (fst (fst (Layer_TileDefs lib l tss))) = length pre"
      and "length (fst (fst (Layer_TileDefs lib l tss))) < length cells"
      and "fst (fst (Layer_TileDefs lib l tss)) = [] \<longleftrightarrow> pre = []"
      using split(1) by (simp_all add: res)
    with split empty res cellTileDef_None_iff [of ?stss c] show ?thesis by blast
  qed
  have full: "Layer_TileDefs lib l tss =
                  ((map (the \<circ> cellTileDef ?stss) cells, None),
                   l'\<lparr>tileDefs := map (the \<circ> cellTileDef ?stss) cells\<rparr>,
                   ?stss, ResolvedTileDefs # w)"
    if un: "tileDefs l = []" and refs: "Layer_TileGlobalRefs lib l = ((cells, None), l', w)"
      and a: ?full
  proof -
    from a have "\<forall>c \<in> set cells. cellTileDef ?stss c \<noteq> None"
      by (auto simp add: cellTileDef_None_iff)
    then have "TileDefs_loop ?stss cells [] = (map (the \<circ> cellTileDef ?stss) cells, None)"
      using TileDefs_loop_all [of cells ?stss "[]"] by simp
    with un refs show ?thesis by (simp add: Layer_TileDefs_uncached)
  qed
  have nil_iff: "snd (fst (Layer_TileDefs lib l tss)) = None \<longleftrightarrow> ?full"
    if un: "tileDefs l = []" and refs: "Layer_TileGlobalRefs lib l = ((cells, None), l', w)"
  proof (cases ?full)
    case True
    with full [OF un refs] show ?thesis by simp
  next
    case False
    then have ?fails by auto
    from failing [OF un refs this] False show ?thesis by auto
  qed
  show ?thesis
    using cached decode_fails failing full nil_iff Layer_TileGlobalRefs_stores [of lib l cells l' w]
    by (intro conjI impI) blast+
qed


theorem TileDefs_fails_or_full_witness:
  "tileDefs ((refs_layer [] [] [] [50])\<lparr>tileDefs := [nilTileDef]\<rparr>) \<noteq> []
   \<and> Layer_TileDefs example_lib ((refs_layer [] [] [] [50])\<lparr>tileDefs := [nilTileDef]\<rparr>)
        [tileset_at ''B'' 100] =
       (([nilTileDef], None), (refs_layer [] [] [] [50])\<lparr>tileDefs := [nilTileDef]\<rparr>,
        [tileset_at ''B'' 100], [])
   \<and> tileDefs (blob_layer ''csv'' [] ''100,50'') = []
   \<and> Layer_TileGlobalRefs example_lib (blob_layer ''csv'' [] ''100,50'') =
       (([\<lparr>GlobalID = 100\<rparr>, \<lparr>GlobalID = 50\<rparr>], None),
        (blob_layer ''csv'' [] ''100,50'')
          \<lparr>tileGlobalRefs := [\<lparr>GlobalID = 100\<rparr>, \<lparr>GlobalID = 50\<rparr>]\<rparr>,
        [DecodedPayload])
   \<and> (\<exists>c \<in> set [\<lparr>GlobalID = 100\<rparr>, \<lparr>GlobalID = 50\<rparr>]. GlobalID_BareID (GlobalID c) \<noteq> 0
         \<and> findTileSet (sort_byFirstGlobalID example_lib [tileset_at ''B'' 100])
              (GlobalID_BareID (GlobalID c)) = None)
   \<and> (\<exists>tds g. Layer_TileDefs example_lib (blob_layer ''csv'' [] ''100,50'')
                  [tileset_at ''B'' 100] =
         ((tds, Some (NoSuitableTileSetFound g)),
          (blob_layer ''csv'' [] ''100,50'')
            \<lparr>tileGlobalRefs := [\<lparr>GlobalID = 100\<rparr>, \<lparr>GlobalID = 50\<rparr>]\<rparr>,
          sort_byFirstGlobalID example_lib [tileset_at ''B'' 100],
          [ResolvedTileDefs, DecodedPayload])
         \<and> length tds < 2)
   \<and> Layer_TileDefs example_lib (blob_layer ''csv'' [] ''100,50'') [tileset_at ''B'' 100] =
       (([\<lparr>IsNil = False, ID = 0, DefGlobalID = 100, TileSet = Some 0, Tile = None,
           HorizontallyFlipped = False, VerticallyFlipped = False,
           DiagonallyFlipped = False\<rparr>],
         Some (NoSuitableTileSetFound 50)),
        (blob_layer ''csv'' [] ''100,50'')
          \<lparr>tileGlobalRefs := [\<lparr>GlobalID = 100\<rparr>, \<lparr>GlobalID = 50\<rparr>]\<rparr>,
        [tileset_at ''B'' 100], [ResolvedTileDefs, DecodedPayload])
   \<and> tileDefs (refs_layer [] [] [] [0x80000065, 0]) = []
   \<and> Layer_TileGlobalRefs example_lib (refs_layer [] [] [] [0x80000065, 0]) =
       (([\<lparr>GlobalID = 0x80000065\<rparr>, \<lparr>GlobalID = 0\<rparr>], None),
        refs_layer [] [] [] [0x80000065, 0], [])
   \<and> findTileSet (sort_byFirstGlobalID example_lib [tileset_at ''C'' 250, tileset_at ''B'' 100])
        (GlobalID_BareID 0x80000065) = Some 0
   \<and> GlobalID_BareID 0 = 0
   \<and> snd (fst (Layer_TileDefs example_lib (refs_layer [] [] [] [0x80000065, 0])
          [tileset_at ''C'' 250, tileset_at ''B'' 100])) = None
   \<and> Layer_TileDefs example_lib (refs_layer [] [] [] [0x80000065, 0])
          [tileset_at ''C'' 250, tileset_at ''B'' 100] =
       (([\<lparr>IsNil = False, ID = 1, DefGlobalID = 0x80000065, TileSet = Some 0, Tile = None,
           HorizontallyFlipped = True, VerticallyFlipped = False, DiagonallyFlipped = False\<rparr>,
          nilTileDef],
         None),
        (refs_layer [] [] [] [0x80000065, 0])
          \<lparr>tileDefs :=
             [\<lparr>IsNil = False, ID = 1, DefGlobalID = 0x80000065, TileSet = Some 0, Tile = None,
               HorizontallyFlipped = True, VerticallyFlipped = False,
               DiagonallyFlipped = False\<rparr>,
              nilTileDef]\<rparr>,
        [tileset_at ''B'' 100, tileset_at ''C'' 250], [ResolvedTileDefs])
   \<and> tileDefs (blob_layer ''xml'' [] ''1,2'') = []
   \<and> Layer_TileGlobalRefs example_lib (blob_layer ''xml'' [] ''1,2'') =
       (([], Some ErrUnsupportedEncoding), blob_layer ''xml'' [] ''1,2'', [DecodedPayload])
   \<and> Layer_TileDefs example_lib (blob_layer ''xml'' [] ''1,2'') [tileset_at ''B'' 100] =
       (([], Some ErrUnsupportedEncoding), blob_layer ''xml'' [] ''1,2'',
        [tileset_at ''B'' 100], [ResolvedTileDefs, DecodedPayload])"
proof -
  let ?cached = "(refs_layer [] [] [] [50])\<lparr>tileDefs := [nilTileDef]\<rparr>"
  let ?blob = "blob_layer ''csv'' [] ''100,50''"
  let ?cells = "[\<lparr>GlobalID = 100\<rparr>, \<lparr>GlobalID = 50\<rparr>]"
  let ?refs = "refs_layer [] [] [] [0x80000065, 0]"
  let ?xml = "blob_layer ''xml'' [] ''1,2''"
  have a1: "tileDefs ?cached \<noteq> []"
    by simp
  have a2: "Layer_TileDefs example_lib ?cached [tileset_at ''B'' 100] =
       (([nilTileDef], None), ?cached, [tileset_at ''B'' 100], [])"
    using TileDefs_fails_or_full [where l = ?cached and lib = example_lib
        and tss = "[tileset_at ''B'' 100]"] a1
    by simp
  have b1: "tileDefs ?blob = []"
    by (simp add: blob_layer_def refs_layer_def)
  have b2: "Layer_TileGlobalRefs example_lib ?blob =
       ((?cells, None), ?blob\<lparr>tileGlobalRefs := ?cells\<rparr>, [DecodedPayload])"
    by code_simp
  have b3: "\<exists>c \<in> set ?cells. GlobalID_BareID (GlobalID c) \<noteq> 0
         \<and> findTileSet (sort_byFirstGlobalID example_lib [tileset_at ''B'' 100])
              (GlobalID_BareID (GlobalID c)) = None"
    by code_simp
  have b4: "\<exists>tds g. Layer_TileDefs example_lib ?blob [tileset_at ''B'' 100] =
         ((tds, Some (NoSuitableTileSetFound g)), ?blob\<lparr>tileGlobalRefs := ?cells\<rparr>,
          sort_byFirstGlobalID example_lib [tileset_at ''B'' 100],
          [ResolvedTileDefs, DecodedPayload])
         \<and> length tds < 2"
    using TileDefs_fails_or_full [where l = ?blob and lib = example_lib
        and tss = "[tileset_at ''B'' 100]" and cells = ?cells
        and l' = "?blob\<lparr>tileGlobalRefs := ?cells\<rparr>" and w = "[DecodedPayload]",
        THEN conjunct2, THEN conjunct1, THEN mp, OF conjI [OF b1 b2],
        THEN conjunct2, THEN conjunct1, THEN mp, OF b3]
    by auto
  have b5: "Layer_TileDefs example_lib ?blob [tileset_at ''B'' 100] =
       (([\<lparr>IsNil = False, ID = 0, DefGlobalID = 100, TileSet = Some 0, Tile = None,
           HorizontallyFlipped = False, VerticallyFlipped = False,
           DiagonallyFlipped = False\<rparr>],
         Some (NoSuitableTileSetFound 50)),
        ?blob\<lparr>tileGlobalRefs := ?cells\<rparr>,
        [tileset_at ''B'' 100], [ResolvedTileDefs, DecodedPayload])"
    by code_simp
  have c1: "tileDefs ?refs = []"
    by (simp add: refs_layer_def)
  have c2: "Layer_TileGlobalRefs example_lib ?refs =
       (([\<lparr>GlobalID = 0x80000065\<rparr>, \<lparr>GlobalID = 0\<rparr>], None), ?refs, [])"
    by (simp add: Layer_TileGlobalRefs_def refs_layer_def)
  have c3: "findTileSet (sort_byFirstGlobalID example_lib [tileset_at ''C'' 250, tileset_at ''B'' 100])
        (GlobalID_BareID 0x80000065) = Some 0"
    by code_simp
  have c4: "GlobalID_BareID 0 = 0"
    by code_simp
  have c5: "\<forall>c \<in> set [\<lparr>GlobalID = 0x80000065\<rparr>, \<lparr>GlobalID = 0\<rparr>].
        GlobalID_BareID (GlobalID c) = 0
        \<or> findTileSet (sort_byFirstGlobalID example_lib [tileset_at ''C'' 250, tileset_at ''B'' 100])
            (GlobalID_BareID (GlobalID c)) \<noteq> None"
    using c3 c4 by simp
  have c6: "snd (fst (Layer_TileDefs example_lib ?refs
          [tileset_at ''C'' 250, tileset_at ''B'' 100])) = None"
    using TileDefs_fails_or_full [where l = ?refs and lib = example_lib
        and tss = "[tileset_at ''C'' 250, tileset_at ''B'' 100]"
        and cells = "[\<lparr>GlobalID = 0x80000065\<rparr>, \<lparr>GlobalID = 0\<rparr>]"
        and l' = ?refs and w = "[]",
        THEN conjunct2, THEN conjunct1, THEN mp, OF conjI [OF c1 c2],
        THEN conjunct2, THEN conjunct2, THEN conjunct2] c5
    by blast
  have c7: "Layer_TileDefs example_lib ?refs [tileset_at ''C'' 250, tileset_at ''B'' 100] =
       (([\<lparr>IsNil = False, ID = 1, DefGlobalID = 0x80000065, TileSet = Some 0, Tile = None,
           HorizontallyFlipped = True, VerticallyFlipped = False, DiagonallyFlipped = False\<rparr>,
          nilTileDef],
         None),
        ?refs
          \<lparr>tileDefs :=
             [\<lparr>IsNil = False, ID = 1, DefGlobalID = 0x80000065, TileSet = Some 0, Tile = None,
               HorizontallyFlipped = True, VerticallyFlipped = False,
               DiagonallyFlipped = False\<rparr>,
              nilTileDef]\<rparr>,
        [tileset_at ''B'' 100, tileset_at ''C'' 250], [ResolvedTileDefs])"
    by code_simp
  have d1: "tileDefs ?xml = []"
    by (simp add: blob_layer_def refs_layer_def)
  have d2: "Layer_TileGlobalRefs example_lib ?xml =
       (([], Some ErrUnsupportedEncoding), ?xml, [DecodedPayload])"
    by code_simp
  have d3: "Layer_TileDefs example_lib ?xml [tileset_at ''B'' 100] =
       (([], Some ErrUnsupportedEncoding), ?xml, [tileset_at ''B'' 100],
        [ResolvedTileDefs, DecodedPayload])"
    using TileDefs_fails_or_full [where l = ?xml and lib = example_lib
        and tss = "[tileset_at ''B'' 100]" and part = "[]" and err = ErrUnsupportedEncoding
        and l'' = ?xml and w' = "[DecodedPayload]",
        THEN conjunct2, THEN conjunct2, THEN mp, OF conjI [OF d1 d2]]
    by simp
  show ?thesis
    by (intro conjI a1 a2 b1 b2 b3 b4 b5 c1 c2 c3 c4 c6 c7 d1 d2 d3)
qed

section \<open>Structured references and the caches\<close>

text \<open>
  Claim C7. A layer that carries a non-empty structured reference list gets that list
  back from \<open>Layer.TileGlobalRefs\<close>, with a nil error, the layer unchanged and no
  decoding done, whatever its encoding tag, compression tag, raw bytes and cache are
  and whatever the library readers would do: the blob is not looked at, so the call
  succeeds also with invalid tags.
\<close>

theorem structured_refs_verbatim:
  assumes "TileGlobalRefs (RawData l) \<noteq> []"
  shows
    "Layer_TileGlobalRefs lib l = ((TileGlobalRefs (RawData l), None), l, [])
     \<and> (\<forall>lib' enc cmpr raw cache.
           fst (Layer_TileGlobalRefs lib'
                  (l\<lparr>RawData := (RawData l)\<lparr>Encoding := enc, Compression := cmpr, RawBytes := raw\<rparr>,
                     tileGlobalRefs := cache\<rparr>))
           = (TileGlobalRefs (RawData l), None))"
  using assms by (simp add: Layer_TileGlobalRefs_def)

theorem structured_refs_verbatim_witness:
  "TileGlobalRefs (RawData (refs_layer ''bogus'' ''lz4'' ''!!not base64!!'' [7, 0x80000008])) \<noteq> []
   \<and> Layer_TileGlobalRefs example_lib (refs_layer ''bogus'' ''lz4'' ''!!not base64!!'' [7, 0x80000008]) =
       (([\<lparr>GlobalID = 7\<rparr>, \<lparr>GlobalID = 0x80000008\<rparr>], None),
        refs_layer ''bogus'' ''lz4'' ''!!not base64!!'' [7, 0x80000008], [])
   \<and> Layer_TileGlobalRefs example_lib (blob_layer ''bogus'' ''lz4'' ''!!not base64!!'') =
       (([], Some ErrUnsupportedEncoding), blob_layer ''bogus'' ''lz4'' ''!!not base64!!'',
        [DecodedPayload])"
proof -
  have h: "TileGlobalRefs (RawData (refs_layer ''bogus'' ''lz4'' ''!!not base64!!'' [7, 0x80000008])) \<noteq> []"
    by (simp add: refs_layer_def)
  have c: "Layer_TileGlobalRefs example_lib (refs_layer ''bogus'' ''lz4'' ''!!not base64!!'' [7, 0x80000008]) =
       (([\<lparr>GlobalID = 7\<rparr>, \<lparr>GlobalID = 0x80000008\<rparr>], None),
        refs_layer ''bogus'' ''lz4'' ''!!not base64!!'' [7, 0x80000008], [])"
    using structured_refs_verbatim [OF h, THEN conjunct1, of example_lib]
    by (simp add: refs_layer_def)
  have b: "Layer_TileGlobalRefs example_lib (blob_layer ''bogus'' ''lz4'' ''!!not base64!!'') =
       (([], Some ErrUnsupportedEncoding), blob_layer ''bogus'' ''lz4'' ''!!not base64!!'',
        [DecodedPayload])"
    by code_simp
  show ?thesis by (intro conjI h c b)
qed

text \<open>
  Claim C4, as stated, is refuted by a layer whose payload is the empty base64 text:
  the first call of \<open>Layer.TileGlobalRefs\<close> succeeds with no references, the cache
  field stays nil, and the second call decodes the payload again; likewise
  \<open>Layer.TileDefs\<close> succeeds with no definitions and resolves again on the second call.
\<close>

theorem empty_result_recomputed_counterexample:
  "Layer_TileGlobalRefs example_lib (blob_layer ''base64'' [] []) =
     (([], None), blob_layer ''base64'' [] [], [DecodedPayload])
   \<and> snd (snd (Layer_TileGlobalRefs example_lib
        (fst (snd (Layer_TileGlobalRefs example_lib (blob_layer ''base64'' [] [])))))) =
      [DecodedPayload]
   \<and> Layer_TileDefs example_lib (blob_layer ''base64'' [] []) [] =
     (([], None), blob_layer ''base64'' [] [], [], [ResolvedTileDefs, DecodedPayload])
   \<and> snd (snd (snd (Layer_TileDefs example_lib
        (fst (snd (Layer_TileDefs example_lib (blob_layer ''base64'' [] [] ) []))) []))) =
      [ResolvedTileDefs, DecodedPayload]"
  by code_simp

text \<open>
  Claim C4, amended. After a successful call of \<open>Layer.TileGlobalRefs\<close> that returned
  a non-empty sequence, every further call on the layer returns the same sequence
  without decoding (empty work log, layer unchanged), whatever the library readers
  are; after a successful call of \<open>Layer.TileDefs\<close> that returned a non-empty
  sequence, every further call returns the same sequence without decoding or
  resolving, whatever tile-sets it is given, and leaves them as they are.
\<close>

theorem nonempty_results_memoized:
  "(Layer_TileGlobalRefs lib l = ((refs, None), l1, w) \<and> refs \<noteq> []
      \<longrightarrow> (\<forall>lib'. Layer_TileGlobalRefs lib' l1 = ((refs, None), l1, [])))
   \<and> (Layer_TileDefs lib l tss = ((tds, None), l2, tss2, w2) \<and> tds \<noteq> []
      \<longrightarrow> (\<forall>lib' tss'. Layer_TileDefs lib' l2 tss' = ((tds, None), l2, tss', [])))"
proof (intro conjI impI allI)
  fix lib'
  assume "Layer_TileGlobalRefs lib l = ((refs, None), l1, w) \<and> refs \<noteq> []"
  then show "Layer_TileGlobalRefs lib' l1 = ((refs, None), l1, [])"
    by (auto simp add: Layer_TileGlobalRefs_def Let_def
        split: if_splits prod.splits option.splits)
next
  fix lib' tss'
  assume a: "Layer_TileDefs lib l tss = ((tds, None), l2, tss2, w2) \<and> tds \<noteq> []"
  then have "tileDefs l2 = tds"
    by (auto simp add: Layer_TileDefs_def Let_def split: if_splits prod.splits option.splits)
  with a show "Layer_TileDefs lib' l2 tss' = ((tds, None), l2, tss', [])"
    by (simp add: Layer_TileDefs_def)
qed

theorem nonempty_results_memoized_witness:
  "Layer_TileGlobalRefs example_lib (blob_layer ''csv'' [] ''1, 2,3 ,4'') =
     (([\<lparr>GlobalID = 1\<rparr>, \<lparr>GlobalID = 2\<rparr>, \<lparr>GlobalID = 3\<rparr>, \<lparr>GlobalID = 4\<rparr>], None),
      (blob_layer ''csv'' [] ''1, 2,3 ,4'')
        \<lparr>tileGlobalRefs := [\<lparr>GlobalID = 1\<rparr>, \<lparr>GlobalID = 2\<rparr>, \<lparr>GlobalID = 3\<rparr>, \<lparr>GlobalID = 4\<rparr>]\<rparr>,
      [DecodedPayload])
   \<and> [\<lparr>GlobalID = 1\<rparr>, \<lparr>GlobalID = 2\<rparr>, \<lparr>GlobalID = 3\<rparr>, \<lparr>GlobalID = (4 :: u32)\<rparr>] \<noteq> []
   \<and> Layer_TileGlobalRefs example_lib
       ((blob_layer ''csv'' [] ''1, 2,3 ,4'')
          \<lparr>tileGlobalRefs := [\<lparr>GlobalID = 1\<rparr>, \<lparr>GlobalID = 2\<rparr>, \<lparr>GlobalID = 3\<rparr>, \<lparr>GlobalID = 4\<rparr>]\<rparr>) =
     (([\<lparr>GlobalID = 1\<rparr>, \<lparr>GlobalID = 2\<rparr>, \<lparr>GlobalID = 3\<rparr>, \<lparr>GlobalID = 4\<rparr>], None),
      (blob_layer ''csv'' [] ''1, 2,3 ,4'')
        \<lparr>tileGlobalRefs := [\<lparr>GlobalID = 1\<rparr>, \<lparr>GlobalID = 2\<rparr>, \<lparr>GlobalID = 3\<rparr>, \<lparr>GlobalID = 4\<rparr>]\<rparr>,
      [])
   \<and> snd (snd (snd (Layer_TileDefs example_lib
        (fst (snd (Layer_TileDefs example_lib (blob_layer ''base64'' [] ''AQAAAAIAAAA='')
                     [tileset_at ''A'' 1])))
        []))) = []"
proof -
  let ?refs = "[\<lparr>GlobalID = 1\<rparr>, \<lparr>GlobalID = 2\<rparr>, \<lparr>GlobalID = 3\<rparr>, \<lparr>GlobalID = (4 :: u32)\<rparr>]"
  have first: "Layer_TileGlobalRefs example_lib (blob_layer ''csv'' [] ''1, 2,3 ,4'') =
     ((?refs, None), (blob_layer ''csv'' [] ''1, 2,3 ,4'')\<lparr>tileGlobalRefs := ?refs\<rparr>,
      [DecodedPayload])"
    by code_simp
  have ne: "?refs \<noteq> []" by simp
  have again: "Layer_TileGlobalRefs example_lib
       ((blob_layer ''csv'' [] ''1, 2,3 ,4'')\<lparr>tileGlobalRefs := ?refs\<rparr>) =
     ((?refs, None), (blob_layer ''csv'' [] ''1, 2,3 ,4'')\<lparr>tileGlobalRefs := ?refs\<rparr>, [])"
    using nonempty_results_memoized [THEN conjunct1, THEN mp, OF conjI, OF first ne]
    by (rule spec)
  have defs: "snd (snd (snd (Layer_TileDefs example_lib
        (fst (snd (Layer_TileDefs example_lib (blob_layer ''base64'' [] ''AQAAAAIAAAA='')
                     [tileset_at ''A'' 1])))
        []))) = []"
    by code_simp
  show ?thesis by (intro conjI first ne again defs)
qed

section \<open>Decimal literals\<close>

lemma isDigit_digitVal: "isDigit c \<Longrightarrow> 0 \<le> digitVal c \<and> digitVal c \<le> 9"
  by (simp add: isDigit_def digitVal_def)

lemma decimal_fold_mono:
  "list_all isDigit cs \<Longrightarrow> 0 \<le> m \<Longrightarrow> m \<le> foldl (\<lambda>n c. 10 * n + digitVal c) m cs"
proof (induction cs arbitrary: m)
  case Nil
  then show ?case by simp
next
  case (Cons c cs)
  then have d: "0 \<le> digitVal c" by (simp add: isDigit_digitVal)
  with Cons.prems have "0 \<le> 10 * m + digitVal c" by simp
  with Cons have "10 * m + digitVal c \<le> foldl (\<lambda>n c. 10 * n + digitVal c) (10 * m + digitVal c) cs"
    by simp
  with d Cons.prems show ?case by simp
qed

lemma ParseUint_loop_cases:
  assumes "0 \<le> n" and "n \<le> maxVal32"
  shows "(list_all isDigit cs \<and> foldl (\<lambda>n c. 10 * n + digitVal c) n cs \<le> maxVal32
            \<and> ParseUint_loop s0 cs n = (foldl (\<lambda>n c. 10 * n + digitVal c) n cs, None))
         \<or> (\<not> list_all isDigit cs
            \<and> ParseUint_loop s0 cs n = (0, Some (NumError ''ParseUint'' s0 ErrSyntax)))
         \<or> (\<not> (list_all isDigit cs \<and> foldl (\<lambda>n c. 10 * n + digitVal c) n cs \<le> maxVal32)
            \<and> ParseUint_loop s0 cs n = (maxVal32, Some (NumError ''ParseUint'' s0 ErrRange)))"
  using assms
proof (induction cs arbitrary: n)
  case Nil
  then show ?case by simp
next
  case (Cons c cs)
  show ?case
  proof (cases "isDigit c")
    case False
    then show ?thesis by simp
  next
    case True
    then have d: "0 \<le> digitVal c" "digitVal c \<le> 9" by (simp_all add: isDigit_digitVal)
    let ?n1 = "n * 10 + digitVal c"
    have small: "\<not> cutoff64 \<le> n" using Cons.prems by (simp add: cutoff64_def maxVal32_def)
    have "?n1 < 2 ^ 64" using Cons.prems d by (simp add: maxVal32_def)
    moreover have "0 \<le> ?n1" using Cons.prems d by simp
    ultimately have nomod: "?n1 mod 2 ^ 64 = ?n1" by simp
    have nowrap: "\<not> ?n1 < n * 10" using d by simp
    show ?thesis
    proof (cases "maxVal32 < ?n1")
      case over: True
      have "\<not> (list_all isDigit (c # cs) \<and>
          foldl (\<lambda>n c. 10 * n + digitVal c) n (c # cs) \<le> maxVal32)"
      proof
        assume a: "list_all isDigit (c # cs) \<and>
          foldl (\<lambda>n c. 10 * n + digitVal c) n (c # cs) \<le> maxVal32"
        then have "10 * n + digitVal c \<le> foldl (\<lambda>n c. 10 * n + digitVal c) (10 * n + digitVal c) cs"
          using \<open>0 \<le> ?n1\<close> by (intro decimal_fold_mono) (simp_all add: mult.commute)
        with a over show False by (simp add: mult.commute)
      qed
      moreover have "ParseUint_loop s0 (c # cs) n = (maxVal32, Some (NumError ''ParseUint'' s0 ErrRange))"
        using True small over nomod by (simp add: Let_def)
      ultimately show ?thesis by blast
    next
      case fits: False
      then have le: "?n1 \<le> maxVal32" by simp
      have step: "ParseUint_loop s0 (c # cs) n = ParseUint_loop s0 cs ?n1"
        using True small fits nomod nowrap by (simp add: Let_def)
      have fold: "foldl (\<lambda>n c. 10 * n + digitVal c) n (c # cs) =
          foldl (\<lambda>n c. 10 * n + digitVal c) ?n1 cs"
        by (simp add: mult.commute)
      from Cons.IH [OF \<open>0 \<le> ?n1\<close> le] show ?thesis
        unfolding step fold using True by simp
    qed
  qed
qed

lemma strconv_ParseUint_cases:
  "(is_uint32_literal s \<and> strconv_ParseUint s = (decimal s, None))
   \<or> (\<not> is_uint32_literal s
       \<and> (strconv_ParseUint s = (0, Some (NumError ''ParseUint'' s ErrSyntax))
             \<and> \<not> (s \<noteq> [] \<and> list_all isDigit s)
          \<or> strconv_ParseUint s = (maxVal32, Some (NumError ''ParseUint'' s ErrRange))))"
proof (cases "s = []")
  case True
  then show ?thesis by (simp add: strconv_ParseUint_def is_uint32_literal_def)
next
  case False
  have "(0::int) \<le> maxVal32" by (simp add: maxVal32_def)
  from ParseUint_loop_cases [OF order_refl this, of s s] False
  show ?thesis
    by (auto simp add: strconv_ParseUint_def is_uint32_literal_def decimal_def maxVal32_def)
qed

lemma strconv_ParseUint_ok:
  "is_uint32_literal s \<Longrightarrow> strconv_ParseUint s = (decimal s, None)"
  using strconv_ParseUint_cases [of s] by auto

lemma strconv_ParseUint_error:
  "\<not> is_uint32_literal s \<Longrightarrow> \<exists>v e. strconv_ParseUint s = (v, Some (NumError ''ParseUint'' s e))"
  using strconv_ParseUint_cases [of s] by auto

lemma decimal_nonneg: "list_all isDigit s \<Longrightarrow> 0 \<le> decimal s"
  using decimal_fold_mono [of s 0] by (simp add: decimal_def)

section \<open>The csv payload\<close>

lemma trimLeading_ascii:
  "\<forall>c \<in> set s. (of_char c :: int) < 128 \<Longrightarrow> trimLeading rv s = dropWhile isSpace1 s"
  by (induction rv s rule: trimLeading.induct)
    (auto simp add: isSpace2_def isSpace3_def Let_def)

lemma strings_TrimSpace_ascii:
  assumes "\<forall>c \<in> set s. (of_char c :: int) < 128"
  shows "strings_TrimSpace s = rev (dropWhile isSpace1 (rev (dropWhile isSpace1 s)))"
proof -
  have "set (dropWhile isSpace1 s) \<subseteq> set s" by (rule set_dropWhileD [THEN subsetI])
  with assms have "\<forall>c \<in> set (rev (dropWhile isSpace1 s)). (of_char c :: int) < 128" by auto
  with assms show ?thesis by (simp add: strings_TrimSpace_def trimLeading_ascii)
qed

lemma strings_Split_nonempty: "strings_Split s sep \<noteq> []"
  by (induction s) (auto split: list.splits)

lemma strings_Split_no_sep: "f \<in> set (strings_Split s sep) \<Longrightarrow> sep \<notin> set f"
proof (induction s arbitrary: f)
  case Nil
  then show ?case by simp
next
  case (Cons c s)
  show ?case
  proof (cases "c = sep")
    case True
    with Cons show ?thesis by auto
  next
    case False
    obtain g gs where split: "strings_Split s sep = g # gs"
      using strings_Split_nonempty [of s sep] by (cases "strings_Split s sep") auto
    with Cons False show ?thesis by auto
  qed
qed

lemma strings_Split_join:
  "concat (map (\<lambda>f. f @ [sep]) (strings_Split s sep)) = s @ [sep]"
proof (induction s)
  case Nil
  then show ?case by simp
next
  case (Cons c s)
  obtain g gs where split: "strings_Split s sep = g # gs"
    using strings_Split_nonempty [of s sep] by (cases "strings_Split s sep") auto
  with Cons show ?case by auto
qed

lemma strings_Split_length:
  "length (strings_Split s sep) = Suc (length (filter (\<lambda>c. c = sep) s))"
proof (induction s)
  case Nil
  then show ?case by simp
next
  case (Cons c s)
  obtain g gs where split: "strings_Split s sep = g # gs"
    using strings_Split_nonempty [of s sep] by (cases "strings_Split s sep") auto
  with Cons show ?case by auto
qed

lemma decodeCSV_loop_all:
  assumes "\<forall>f \<in> set strs. is_uint32_literal (strings_TrimSpace f)"
  shows "decodeCSV_loop strs uis =
     (uis @ map (\<lambda>f. word_of_int (decimal (strings_TrimSpace f))) strs, None)"
  using assms by (induction strs arbitrary: uis) (simp_all add: strconv_ParseUint_ok)

lemma decodeCSV_loop_first_failure:
  assumes "\<forall>p \<in> set pre. is_uint32_literal (strings_TrimSpace p)"
    and "\<not> is_uint32_literal (strings_TrimSpace f)"
  shows "\<exists>e. decodeCSV_loop (pre @ f # post) uis =
     ([], Some (NumError ''ParseUint'' (strings_TrimSpace f) e))"
  using assms(1)
proof (induction pre arbitrary: uis)
  case Nil
  from strconv_ParseUint_error [OF assms(2)] show ?case by auto
next
  case (Cons p pre)
  then show ?case by (simp add: strconv_ParseUint_ok)
qed

lemma uint32_literal_value:
  assumes "is_uint32_literal s"
  shows "uint (word_of_int (decimal s) :: u32) = decimal s"
proof -
  from assms have "0 \<le> decimal s" "decimal s < 2 ^ 32"
    by (simp_all add: is_uint32_literal_def decimal_nonneg)
  then show ?thesis by (simp add: uint_word_of_int take_bit_int_eq_self)
qed

text \<open>
  Claim C6. For every csv payload \<open>b\<close>, \<open>decodeCSVLayerData\<close> works on the fields of
  \<open>b\<close> between the commas (joined by commas they give \<open>b\<close> back, and none contains a
  comma), each trimmed of surrounding white space (for ASCII text: the leading and the
  trailing run of tab, line feed, vertical tab, form feed, carriage return and space
  is dropped). If every trimmed field is a base-10
  unsigned 32-bit integer (a non-empty digit string of value below \<open>2^32\<close>), the result
  is the list of their values in field order, with a nil error. Otherwise the call
  fails with the parse error (\<open>strconv.NumError\<close> of \<open>ParseUint\<close>) that names the
  trimmed text of the first field that is not such an integer.
\<close>

theorem decodeCSVLayerData_fields:
  "((\<forall>f \<in> set (strings_Split b CHR '',''). is_uint32_literal (strings_TrimSpace f)) \<longrightarrow>
      decodeCSVLayerData b =
        (map (\<lambda>f. word_of_int (decimal (strings_TrimSpace f))) (strings_Split b CHR '',''), None)
      \<and> (\<forall>f \<in> set (strings_Split b CHR '','').
            uint (word_of_int (decimal (strings_TrimSpace f)) :: u32) =
              decimal (strings_TrimSpace f)))
   \<and> (\<forall>pre f post.
         strings_Split b CHR '','' = pre @ f # post
         \<and> (\<forall>p \<in> set pre. is_uint32_literal (strings_TrimSpace p))
         \<and> \<not> is_uint32_literal (strings_TrimSpace f)
       \<longrightarrow> (\<exists>e. decodeCSVLayerData b =
                ([], Some (NumError ''ParseUint'' (strings_TrimSpace f) e))))
   \<and> concat (map (\<lambda>f. f @ '','') (strings_Split b CHR '','')) = b @ '',''
   \<and> (\<forall>f \<in> set (strings_Split b CHR '',''). CHR '','' \<notin> set f)
   \<and> (\<forall>f. (\<forall>c \<in> set f. (of_char c :: int) < 128) \<longrightarrow>
         strings_TrimSpace f = rev (dropWhile isSpace1 (rev (dropWhile isSpace1 f))))"
proof (intro conjI impI allI ballI)
  assume ok: "\<forall>f \<in> set (strings_Split b CHR '',''). is_uint32_literal (strings_TrimSpace f)"
  then show "decodeCSVLayerData b =
        (map (\<lambda>f. word_of_int (decimal (strings_TrimSpace f))) (strings_Split b CHR '',''), None)"
    by (simp add: decodeCSVLayerData_def decodeCSV_loop_all)
  fix f assume "f \<in> set (strings_Split b CHR '','')"
  with ok show "uint (word_of_int (decimal (strings_TrimSpace f)) :: u32) =
              decimal (strings_TrimSpace f)"
    by (simp add: uint32_literal_value)
next
  fix pre f post
  assume "strings_Split b CHR '','' = pre @ f # post
         \<and> (\<forall>p \<in> set pre. is_uint32_literal (strings_TrimSpace p))
         \<and> \<not> is_uint32_literal (strings_TrimSpace f)"
  then show "\<exists>e. decodeCSVLayerData b =
                ([], Some (NumError ''ParseUint'' (strings_TrimSpace f) e))"
    using decodeCSV_loop_first_failure [of pre f post "[]"]
    by (simp add: decodeCSVLayerData_def)
next
  show "concat (map (\<lambda>f. f @ '','') (strings_Split b CHR '','')) = b @ '',''"
    by (rule strings_Split_join)
next
  fix f assume "f \<in> set (strings_Split b CHR '','')"
  then show "CHR '','' \<notin> set f" by (rule strings_Split_no_sep)
next
  fix f assume "\<forall>c \<in> set f. (of_char c :: int) < 128"
  then show "strings_TrimSpace f = rev (dropWhile isSpace1 (rev (dropWhile isSpace1 f)))"
    by (rule strings_TrimSpace_ascii)
qed

theorem decodeCSVLayerData_fields_witness:
  "strings_Split ''1, 2,3 ,4'' CHR '','' = [''1'', '' 2'', ''3 '', ''4'']
   \<and> map strings_TrimSpace [''1'', '' 2'', ''3 '', ''4''] = [''1'', ''2'', ''3'', ''4'']
   \<and> list_all is_uint32_literal [''1'', ''2'', ''3'', ''4'']
   \<and> decodeCSVLayerData ''1, 2,3 ,4'' = ([1, 2, 3, 4], None)
   \<and> strings_Split ''1,x,3'' CHR '','' = [''1''] @ ''x'' # [''3'']
   \<and> is_uint32_literal (strings_TrimSpace ''1'')
   \<and> \<not> is_uint32_literal (strings_TrimSpace ''x'')
   \<and> (\<exists>e. decodeCSVLayerData ''1,x,3'' = ([], Some (NumError ''ParseUint'' ''x'' e)))
   \<and> decodeCSVLayerData ''1,x,3'' = ([], Some (NumError ''ParseUint'' ''x'' ErrSyntax))"
proof -
  have sp: "strings_Split ''1, 2,3 ,4'' CHR '','' = [''1'', '' 2'', ''3 '', ''4'']"
    by code_simp
  have tr: "map strings_TrimSpace [''1'', '' 2'', ''3 '', ''4''] = [''1'', ''2'', ''3'', ''4'']"
    by code_simp
  have lit: "list_all is_uint32_literal [''1'', ''2'', ''3'', ''4'']"
    by code_simp
  have hyp: "\<forall>f \<in> set (strings_Split ''1, 2,3 ,4'' CHR '',''). is_uint32_literal (strings_TrimSpace f)"
    by code_simp
  have vals: "map (\<lambda>f. word_of_int (decimal (strings_TrimSpace f))) (strings_Split ''1, 2,3 ,4'' CHR '','')
      = [1, 2, 3, 4 :: u32]"
    by code_simp
  have ok: "decodeCSVLayerData ''1, 2,3 ,4'' = ([1, 2, 3, 4], None)"
    using decodeCSVLayerData_fields [of "''1, 2,3 ,4''", THEN conjunct1, THEN mp, OF hyp,
        THEN conjunct1]
    by (simp only: vals)
  have sp2: "strings_Split ''1,x,3'' CHR '','' = [''1''] @ ''x'' # [''3'']"
    by code_simp
  have one: "is_uint32_literal (strings_TrimSpace ''1'')"
    by code_simp
  have bad: "\<not> is_uint32_literal (strings_TrimSpace ''x'')"
    by code_simp
  have trx: "strings_TrimSpace ''x'' = ''x''"
    by code_simp
  have err: "\<exists>e. decodeCSVLayerData ''1,x,3'' = ([], Some (NumError ''ParseUint'' ''x'' e))"
    using decodeCSVLayerData_fields [of "''1,x,3''", THEN conjunct2, THEN conjunct1,
        rule_format, of "[''1'']" "''x''" "[''3'']"] sp2 one bad
    by (simp add: trx)
  have exact: "decodeCSVLayerData ''1,x,3'' = ([], Some (NumError ''ParseUint'' ''x'' ErrSyntax))"
    by code_simp
  show ?thesis by (intro conjI sp tr lit ok sp2 one bad err exact)
qed

section \<open>Parsing the terrain descriptor\<close>

lemma ParseInt_magnitude:
  assumes m: "s \<noteq> []" "m = (if hd s = CHR ''+'' \<or> hd s = CHR ''-'' then tl s else s)"
    and neg: "neg = (hd s = CHR ''-'')"
  shows "is_int_literal s \<longleftrightarrow> m \<noteq> [] \<and> list_all isDigit m"
    and "int_value s = (if neg then - decimal m else decimal m)"
  using assms by (cases s; auto simp add: is_int_literal_def int_value_def)+

lemma ParseInt_step:
  assumes "s \<noteq> []" and "m = (if hd s = CHR ''+'' \<or> hd s = CHR ''-'' then tl s else s)"
    and "strconv_ParseUint m = (un, err)"
    and "err = None \<or> err = Some (NumError ''ParseUint'' m ErrSyntax)
        \<or> err = Some (NumError ''ParseUint'' m ErrRange)"
  shows "strconv_ParseInt s =
     (if err = Some (NumError ''ParseUint'' m ErrSyntax)
      then (0, Some (NumError ''ParseInt'' s ErrSyntax))
      else if hd s \<noteq> CHR ''-'' \<and> 2 ^ 31 \<le> un
      then (2 ^ 31 - 1, Some (NumError ''ParseInt'' s ErrRange))
      else if hd s = CHR ''-'' \<and> 2 ^ 31 < un
      then (- (2 ^ 31), Some (NumError ''ParseInt'' s ErrRange))
      else (if hd s = CHR ''-'' then - un else un, None))"
  using assms by (auto simp add: strconv_ParseInt_def Let_def)

lemma strconv_ParseInt_cases:
  "(is_int32_literal s \<and> strconv_ParseInt s = (int_value s, None))
   \<or> (\<not> is_int32_literal s \<and> (\<exists>v e. strconv_ParseInt s = (v, Some (NumError ''ParseInt'' s e))))"
proof (cases "s = []")
  case True
  then show ?thesis
    by (simp add: strconv_ParseInt_def is_int32_literal_def is_int_literal_def)
next
  case False
  define m where "m = (if hd s = CHR ''+'' \<or> hd s = CHR ''-'' then tl s else s)"
  define neg where "neg = (hd s = CHR ''-'')"
  note lit = ParseInt_magnitude(1) [OF False m_def neg_def]
  note val = ParseInt_magnitude(2) [OF False m_def neg_def]
  from strconv_ParseUint_cases [of m]
  consider
    (ok) "is_uint32_literal m" "strconv_ParseUint m = (decimal m, None)"
  | (syn) "strconv_ParseUint m = (0, Some (NumError ''ParseUint'' m ErrSyntax))"
      "\<not> (m \<noteq> [] \<and> list_all isDigit m)"
  | (rng) "\<not> is_uint32_literal m"
      "strconv_ParseUint m = (maxVal32, Some (NumError ''ParseUint'' m ErrRange))"
    by blast
  then show ?thesis
  proof cases
    case ok
    then have dig: "m \<noteq> []" "list_all isDigit m" by (simp_all add: is_uint32_literal_def)
    from dig(2) have nn: "0 \<le> decimal m" by (rule decimal_nonneg)
    have step: "strconv_ParseInt s =
       (if hd s \<noteq> CHR ''-'' \<and> 2 ^ 31 \<le> decimal m
        then (2 ^ 31 - 1, Some (NumError ''ParseInt'' s ErrRange))
        else if hd s = CHR ''-'' \<and> 2 ^ 31 < decimal m
        then (- (2 ^ 31), Some (NumError ''ParseInt'' s ErrRange))
        else (if hd s = CHR ''-'' then - decimal m else decimal m, None))"
      using ParseInt_step [OF False m_def ok(2)] by simp
    show ?thesis
      using dig nn lit val by (auto simp add: step is_int32_literal_def neg_def)
  next
    case syn
    with lit have "\<not> is_int32_literal s" by (simp add: is_int32_literal_def)
    moreover have "strconv_ParseInt s = (0, Some (NumError ''ParseInt'' s ErrSyntax))"
      using ParseInt_step [OF False m_def syn(1)] by simp
    ultimately show ?thesis by simp
  next
    case rng
    have "\<not> is_int32_literal s"
    proof
      assume a: "is_int32_literal s"
      then have "m \<noteq> []" "list_all isDigit m" using lit by (simp_all add: is_int32_literal_def)
      moreover from a val have "decimal m \<le> 2 ^ 31"
        by (auto simp add: is_int32_literal_def split: if_splits)
      then have "decimal m < 2 ^ 32" by simp
      ultimately have "is_uint32_literal m" by (simp add: is_uint32_literal_def)
      with rng(1) show False by simp
    qed
    moreover have "\<exists>v e. strconv_ParseInt s = (v, Some (NumError ''ParseInt'' s e))"
      using ParseInt_step [OF False m_def rng(2)] by (auto simp add: maxVal32_def)
    ultimately show ?thesis by simp
  qed
qed

lemma strconv_ParseInt_ok:
  "is_int32_literal s \<Longrightarrow> strconv_ParseInt s = (int_value s, None)"
  using strconv_ParseInt_cases [of s] by auto

lemma strconv_ParseInt_error:
  "\<not> is_int32_literal s \<Longrightarrow> \<exists>v e. strconv_ParseInt s = (v, Some (NumError ''ParseInt'' s e))"
  using strconv_ParseInt_cases [of s] by auto

lemma TerrainType_loop_first_failure:
  assumes "\<forall>p \<in> set pre. is_int32_literal (terrainField p)"
    and "\<not> is_int32_literal (terrainField f)"
  shows "\<exists>tid' e. TerrainType_loop (pre @ f # post) i tid =
     (tid', Some (NumError ''ParseInt'' (terrainField f) e))"
  using assms(1)
proof (induction pre arbitrary: i tid)
  case Nil
  from strconv_ParseInt_error [OF assms(2)] show ?case
    by (auto simp add: terrainField_def)
next
  case (Cons p pre)
  then show ?case by (simp add: strconv_ParseInt_ok terrainField_def)
qed

lemma TerrainType_loop_four:
  assumes "\<forall>f \<in> set [a, b, c, d]. is_int32_literal (terrainField f)"
  shows "TerrainType_loop [a, b, c, d] 0 (replicate 4 0) =
     ([cornerID a, cornerID b, cornerID c, cornerID d], None)"
proof -
  have r: "replicate 4 (0 :: TileID) = [0, 0, 0, 0]" by (simp add: numeral_eq_Suc)
  from assms have "strconv_ParseInt (strings_TrimSpace (strings_TrimSpace f)) =
      (int_value (terrainField f), None)" if "f \<in> set [a, b, c, d]" for f
    using that strconv_ParseInt_ok [of "terrainField f"] by (auto simp add: terrainField_def)
  then show ?thesis
    by (simp add: r cornerID_def)
qed


text \<open>
  Claim C9. For every tile: an empty terrain descriptor gives the zero-valued
  four-corner result with no error (and no parsing); a non-empty descriptor that is
  not yet memoized fails with the field-count error, which carries the descriptor and
  the count, when the number of its comma-separated fields is not 4; with four fields,
  it fails with the parse error (\<open>strconv.NumError\<close> of \<open>ParseInt\<close>) naming the first
  field that is not a 32-bit integer literal (in particular any field that is not an
  integer literal at all); with four integer fields it succeeds with top-left,
  top-right, bottom-left, bottom-right in field order and stores the result in the
  tile, and a tile that holds a stored result returns it without parsing.
\<close>

theorem Tile_TerrainType_cases:
  "(RawTerrainType t = [] \<longrightarrow>
      Tile_TerrainType t =
        ((Some \<lparr>TopLeft = 0, TopRight = 0, BottomLeft = 0, BottomRight = 0\<rparr>, None), t, []))
   \<and> (RawTerrainType t \<noteq> [] \<and> terrainType t = None \<longrightarrow>
        (length (strings_Split (RawTerrainType t) CHR '','') \<noteq> 4 \<longrightarrow>
           Tile_TerrainType t =
             ((None, Some (UnexpectedTerrainSpecifier (RawTerrainType t)
                             (length (strings_Split (RawTerrainType t) CHR '','')))),
              t, [ParsedTerrainType]))
        \<and> (\<forall>pre f post.
              strings_Split (RawTerrainType t) CHR '','' = pre @ f # post
              \<and> length (pre @ f # post) = 4
              \<and> (\<forall>p \<in> set pre. is_int32_literal (terrainField p))
              \<and> \<not> is_int32_literal (terrainField f)
            \<longrightarrow> (\<exists>e. Tile_TerrainType t =
                     ((None, Some (NumError ''ParseInt'' (terrainField f) e)), t,
                      [ParsedTerrainType])))
        \<and> (\<forall>a b c d.
              strings_Split (RawTerrainType t) CHR '','' = [a, b, c, d]
              \<and> (\<forall>f \<in> set [a, b, c, d]. is_int32_literal (terrainField f))
            \<longrightarrow> Tile_TerrainType t =
                  ((Some \<lparr>TopLeft = cornerID a, TopRight = cornerID b,
                          BottomLeft = cornerID c, BottomRight = cornerID d\<rparr>, None),
                   t\<lparr>terrainType := Some \<lparr>TopLeft = cornerID a, TopRight = cornerID b,
                          BottomLeft = cornerID c, BottomRight = cornerID d\<rparr>\<rparr>,
                   [ParsedTerrainType])))
   \<and> (\<forall>tt. RawTerrainType t \<noteq> [] \<and> terrainType t = Some tt \<longrightarrow>
         Tile_TerrainType t = ((Some tt, None), t, []))
   \<and> (\<forall>s. \<not> is_int_literal s \<longrightarrow> \<not> is_int32_literal s)"
proof (intro conjI impI allI)
  assume "RawTerrainType t = []"
  then show "Tile_TerrainType t =
        ((Some \<lparr>TopLeft = 0, TopRight = 0, BottomLeft = 0, BottomRight = 0\<rparr>, None), t, [])"
    by (simp add: Tile_TerrainType_def)
next
  assume "RawTerrainType t \<noteq> [] \<and> terrainType t = None"
    and "length (strings_Split (RawTerrainType t) CHR '','') \<noteq> 4"
  then show "Tile_TerrainType t =
             ((None, Some (UnexpectedTerrainSpecifier (RawTerrainType t)
                             (length (strings_Split (RawTerrainType t) CHR '','')))),
              t, [ParsedTerrainType])"
    by (simp add: Tile_TerrainType_def Let_def)
next
  fix pre f post
  assume fresh: "RawTerrainType t \<noteq> [] \<and> terrainType t = None"
    and bad: "strings_Split (RawTerrainType t) CHR '','' = pre @ f # post
              \<and> length (pre @ f # post) = 4
              \<and> (\<forall>p \<in> set pre. is_int32_literal (terrainField p))
              \<and> \<not> is_int32_literal (terrainField f)"
  from bad obtain tid' e where
    "TerrainType_loop (pre @ f # post) 0 (replicate 4 0) =
       (tid', Some (NumError ''ParseInt'' (terrainField f) e))"
    using TerrainType_loop_first_failure [of pre f post 0 "replicate 4 0"] by blast
  with fresh bad show "\<exists>e. Tile_TerrainType t =
      ((None, Some (NumError ''ParseInt'' (terrainField f) e)), t, [ParsedTerrainType])"
    by (simp add: Tile_TerrainType_def Let_def)
next
  fix a b c d
  assume fresh: "RawTerrainType t \<noteq> [] \<and> terrainType t = None"
    and good: "strings_Split (RawTerrainType t) CHR '','' = [a, b, c, d]
              \<and> (\<forall>f \<in> set [a, b, c, d]. is_int32_literal (terrainField f))"
  then have "TerrainType_loop [a, b, c, d] 0 (replicate 4 0) =
     ([cornerID a, cornerID b, cornerID c, cornerID d], None)"
    by (intro TerrainType_loop_four) simp
  with fresh good show "Tile_TerrainType t =
                  ((Some \<lparr>TopLeft = cornerID a, TopRight = cornerID b,
                          BottomLeft = cornerID c, BottomRight = cornerID d\<rparr>, None),
                   t\<lparr>terrainType := Some \<lparr>TopLeft = cornerID a, TopRight = cornerID b,
                          BottomLeft = cornerID c, BottomRight = cornerID d\<rparr>\<rparr>,
                   [ParsedTerrainType])"
    by (simp add: Tile_TerrainType_def Let_def)
next
  fix tt
  assume "RawTerrainType t \<noteq> [] \<and> terrainType t = Some tt"
  then show "Tile_TerrainType t = ((Some tt, None), t, [])"
    by (simp add: Tile_TerrainType_def)
next
  fix s
  assume "\<not> is_int_literal s"
  then show "\<not> is_int32_literal s" by (simp add: is_int32_literal_def)
qed

theorem Tile_TerrainType_cases_witness:
  "Tile_TerrainType \<lparr>TileID = 7, RawTerrainType = [], terrainType = None\<rparr> =
     ((Some \<lparr>TopLeft = 0, TopRight = 0, BottomLeft = 0, BottomRight = 0\<rparr>, None),
      \<lparr>TileID = 7, RawTerrainType = [], terrainType = None\<rparr>, [])
   \<and> Tile_TerrainType \<lparr>TileID = 7, RawTerrainType = ''1,2,3'', terrainType = None\<rparr> =
     ((None, Some (UnexpectedTerrainSpecifier ''1,2,3'' 3)),
      \<lparr>TileID = 7, RawTerrainType = ''1,2,3'', terrainType = None\<rparr>, [ParsedTerrainType])
   \<and> Tile_TerrainType \<lparr>TileID = 7, RawTerrainType = ''1,x,3,4'', terrainType = None\<rparr> =
     ((None, Some (NumError ''ParseInt'' ''x'' ErrSyntax)),
      \<lparr>TileID = 7, RawTerrainType = ''1,x,3,4'', terrainType = None\<rparr>, [ParsedTerrainType])
   \<and> strings_Split ''1,2,3,4'' CHR '','' = [''1'', ''2'', ''3'', ''4'']
   \<and> list_all (\<lambda>f. is_int32_literal (terrainField f)) [''1'', ''2'', ''3'', ''4'']
   \<and> Tile_TerrainType \<lparr>TileID = 7, RawTerrainType = ''1,2,3,4'', terrainType = None\<rparr> =
     ((Some \<lparr>TopLeft = 1, TopRight = 2, BottomLeft = 3, BottomRight = 4\<rparr>, None),
      \<lparr>TileID = 7, RawTerrainType = ''1,2,3,4'',
       terrainType = Some \<lparr>TopLeft = 1, TopRight = 2, BottomLeft = 3, BottomRight = 4\<rparr>\<rparr>,
      [ParsedTerrainType])
   \<and> Tile_TerrainType
       \<lparr>TileID = 7, RawTerrainType = ''1,2,3,4'',
        terrainType = Some \<lparr>TopLeft = 1, TopRight = 2, BottomLeft = 3, BottomRight = 4\<rparr>\<rparr> =
     ((Some \<lparr>TopLeft = 1, TopRight = 2, BottomLeft = 3, BottomRight = 4\<rparr>, None),
      \<lparr>TileID = 7, RawTerrainType = ''1,2,3,4'',
       terrainType = Some \<lparr>TopLeft = 1, TopRight = 2, BottomLeft = 3, BottomRight = 4\<rparr>\<rparr>,
      [])"
proof -
  let ?t = "\<lparr>TileID = 7, RawTerrainType = ''1,2,3,4'', terrainType = None\<rparr>"
  have zero: "Tile_TerrainType \<lparr>TileID = 7, RawTerrainType = [], terrainType = None\<rparr> =
     ((Some \<lparr>TopLeft = 0, TopRight = 0, BottomLeft = 0, BottomRight = 0\<rparr>, None),
      \<lparr>TileID = 7, RawTerrainType = [], terrainType = None\<rparr>, [])"
    using Tile_TerrainType_cases [of "\<lparr>TileID = 7, RawTerrainType = [], terrainType = None\<rparr>",
        THEN conjunct1]
    by simp
  have count: "Tile_TerrainType \<lparr>TileID = 7, RawTerrainType = ''1,2,3'', terrainType = None\<rparr> =
     ((None, Some (UnexpectedTerrainSpecifier ''1,2,3'' 3)),
      \<lparr>TileID = 7, RawTerrainType = ''1,2,3'', terrainType = None\<rparr>, [ParsedTerrainType])"
    by code_simp
  have parse: "Tile_TerrainType \<lparr>TileID = 7, RawTerrainType = ''1,x,3,4'', terrainType = None\<rparr> =
     ((None, Some (NumError ''ParseInt'' ''x'' ErrSyntax)),
      \<lparr>TileID = 7, RawTerrainType = ''1,x,3,4'', terrainType = None\<rparr>, [ParsedTerrainType])"
    by code_simp
  have sp: "strings_Split ''1,2,3,4'' CHR '','' = [''1'', ''2'', ''3'', ''4'']"
    by code_simp
  have ints: "list_all (\<lambda>f. is_int32_literal (terrainField f)) [''1'', ''2'', ''3'', ''4'']"
    by code_simp
  have ids: "cornerID ''1'' = 1" "cornerID ''2'' = 2" "cornerID ''3'' = 3" "cornerID ''4'' = 4"
    by code_simp+
  have hyp: "RawTerrainType ?t \<noteq> [] \<and> terrainType ?t = None" by simp
  have four: "strings_Split (RawTerrainType ?t) CHR '','' = [''1'', ''2'', ''3'', ''4'']
      \<and> (\<forall>f \<in> set [''1'', ''2'', ''3'', ''4'']. is_int32_literal (terrainField f))"
    using sp ints by simp
  have ok: "Tile_TerrainType ?t =
     ((Some \<lparr>TopLeft = 1, TopRight = 2, BottomLeft = 3, BottomRight = 4\<rparr>, None),
      \<lparr>TileID = 7, RawTerrainType = ''1,2,3,4'',
       terrainType = Some \<lparr>TopLeft = 1, TopRight = 2, BottomLeft = 3, BottomRight = 4\<rparr>\<rparr>,
      [ParsedTerrainType])"
    using Tile_TerrainType_cases [of ?t, THEN conjunct2, THEN conjunct1, THEN mp, OF hyp,
        THEN conjunct2, THEN conjunct2, THEN spec, THEN spec, THEN spec, THEN spec, THEN mp,
        OF four]
    by (simp add: ids)
  have memo: "Tile_TerrainType
       \<lparr>TileID = 7, RawTerrainType = ''1,2,3,4'',
        terrainType = Some \<lparr>TopLeft = 1, TopRight = 2, BottomLeft = 3, BottomRight = 4\<rparr>\<rparr> =
     ((Some \<lparr>TopLeft = 1, TopRight = 2, BottomLeft = 3, BottomRight = 4\<rparr>, None),
      \<lparr>TileID = 7, RawTerrainType = ''1,2,3,4'',
       terrainType = Some \<lparr>TopLeft = 1, TopRight = 2, BottomLeft = 3, BottomRight = 4\<rparr>\<rparr>,
      [])"
    by code_simp
  show ?thesis by (intro conjI zero count parse sp ints ok memo)
qed

end
